theory Spec2Isabelle
  imports Main "HOL-Library.AList" "HOL-Library.Sublist"
begin

section \<open>Output currency: generated files, dependencies, generated code\<close>

text \<open>
  A thrown JavaScript \<open>Error\<close> is a value carrying its message; a function that may throw
  (or an async function whose promise may reject) returns \<open>error + 'a\<close>, with \<open>Inl\<close> for
  the throw. A string is the list of bytes of its UTF-8 encoding, so an ASCII character
  is one byte and every other character is two to four bytes, none of them an ASCII byte.
\<close>

datatype error = Error string

datatype FileKind = SourceFile | ConfigFile | TestFile | MigrationFile | SchemaFile | DocumentationFile

record GeneratedFile =
  path :: string
  content :: string
  file_type :: "FileKind option"
  overwrite :: "bool option"
  encoding :: "string option"
  mode :: "int option"

datatype DependencyKind = Dependencies | DevDependencies | PeerDependencies

record Dependency =
  name :: string
  version :: string
  dep_type :: "DependencyKind option"
  dev :: "bool option"

text \<open>\<open>metadata?: Record<string, unknown>\<close> is kept as an optional list of key/value pairs.\<close>

record GeneratedCode =
  files :: "GeneratedFile list"
  dependencies :: "Dependency list"
  metadata :: "(string \<times> string) list option"

section \<open>JavaScript library functions used by the merge engine\<close>

text \<open>
  A JavaScript \<open>Map\<close> keeps its keys in insertion order, and \<open>set\<close> on a key that is
  already present replaces the value in place: an association list with
  \<^const>\<open>AList.update\<close>. \<open>get\<close> is \<^const>\<open>map_of\<close>, and \<open>Array.from(m.values())\<close> is
  \<open>map snd\<close>.
\<close>

text \<open>\<open>s.split(c)\<close> for a one-character separator: never empty, \<open>"".split(c) = [""]\<close>.\<close>

fun split_on :: "char \<Rightarrow> string \<Rightarrow> string list" where
  "split_on c [] = [[]]"
| "split_on c (x # xs) =
     (if x = c then [] # split_on c xs
      else (case split_on c xs of
              [] \<Rightarrow> [[x]]
            | y # ys \<Rightarrow> (x # y) # ys))"

text \<open>
  The numbers that \<open>parseInt\<close> can return: the integers that are doubles, the two
  infinities and \<open>NaN\<close>. \<open>-0\<close> is not told apart from \<open>0\<close>: no operation used here
  does.
\<close>

datatype number = Finite int | PosInfinity | NegInfinity | NaN

text \<open>\<open>a > b\<close> on numbers: false whenever either side is \<open>NaN\<close>.\<close>

fun numGreater :: "number \<Rightarrow> number \<Rightarrow> bool" where
  "numGreater (Finite a) (Finite b) = (a > b)"
| "numGreater PosInfinity (Finite b) = True"
| "numGreater PosInfinity NegInfinity = True"
| "numGreater (Finite a) NegInfinity = True"
| "numGreater a b = False"

text \<open>\<open>a !== b\<close> on numbers: \<open>NaN\<close> differs from everything, itself included.\<close>

definition numNotEqual :: "number \<Rightarrow> number \<Rightarrow> bool" where
  "numNotEqual a b = (a \<noteq> b \<or> a = NaN)"

text \<open>\<open>x || 0\<close> on a number: \<open>0\<close> and \<open>NaN\<close> are falsy.\<close>

definition orZero :: "number \<Rightarrow> number" where
  "orZero x = (if x = NaN \<or> x = Finite 0 then Finite 0 else x)"

text \<open>
  The length in bytes of the white-space character or line terminator at the start of
  a string, 0 when there is none. These are the characters that \<open>parseInt\<close> skips: TAB,
  LF, VT, FF, CR, SP, U+00A0, U+1680, U+2000 to U+200A, U+2028, U+2029, U+202F, U+205F,
  U+3000 and U+FEFF. U+00A0 is also recognised as the single byte \<open>A0\<close> of its Latin-1
  form; in UTF-8 that byte never begins a character.
\<close>

definition whiteSpaceLength :: "string \<Rightarrow> nat" where
  "whiteSpaceLength s =
     (if take 1 s \<in> set [[CHR 0x09], [CHR 0x0A], [CHR 0x0B], [CHR 0x0C], [CHR 0x0D], [CHR 0x20],
                            [CHR 0xA0]]
      then 1
      else if take 2 s = [CHR 0xC2, CHR 0xA0] then 2
      else if take 3 s \<in> set
          ([[CHR 0xE1, CHR 0x9A, CHR 0x80], [CHR 0xE2, CHR 0x80, CHR 0xA8],
            [CHR 0xE2, CHR 0x80, CHR 0xA9], [CHR 0xE2, CHR 0x80, CHR 0xAF],
            [CHR 0xE2, CHR 0x81, CHR 0x9F], [CHR 0xE3, CHR 0x80, CHR 0x80],
            [CHR 0xEF, CHR 0xBB, CHR 0xBF]]
           @ map (\<lambda>b. [CHR 0xE2, CHR 0x80, b])
               [CHR 0x80, CHR 0x81, CHR 0x82, CHR 0x83, CHR 0x84, CHR 0x85, CHR 0x86,
                CHR 0x87, CHR 0x88, CHR 0x89, CHR 0x8A])
      then 3
      else 0)"

function skipWhiteSpace :: "string \<Rightarrow> string" where
  "skipWhiteSpace s =
     (if whiteSpaceLength s = 0 then s else skipWhiteSpace (drop (whiteSpaceLength s) s))"
  by pat_completeness auto
termination
proof (relation "measure length")
  show "wf (measure length)" by simp
next
  fix s :: string
  assume nonzero: "whiteSpaceLength s \<noteq> 0"
  moreover have "whiteSpaceLength [] = 0" by (simp add: whiteSpaceLength_def)
  ultimately have "s \<noteq> []" by metis
  with nonzero show "(drop (whiteSpaceLength s) s, s) \<in> measure length" by simp
qed

text \<open>Digit values by character code: \<open>0\<close>-\<open>9\<close> are 48-57, \<open>A\<close>-\<open>F\<close> 65-70, \<open>a\<close>-\<open>f\<close> 97-102.\<close>

definition digitValue :: "char \<Rightarrow> nat option" where
  "digitValue c =
     (let n = (of_char c :: nat) in
      if 48 \<le> n \<and> n \<le> 57 then Some (n - 48) else None)"

definition hexDigitValue :: "char \<Rightarrow> nat option" where
  "hexDigitValue c =
     (let n = (of_char c :: nat) in
      if 48 \<le> n \<and> n \<le> 57 then Some (n - 48)
      else if 65 \<le> n \<and> n \<le> 70 then Some (n - 55)
      else if 97 \<le> n \<and> n \<le> 102 then Some (n - 87)
      else None)"

text \<open>The longest prefix of digits of a string, as digit values.\<close>

fun leadingDigits :: "(char \<Rightarrow> nat option) \<Rightarrow> string \<Rightarrow> nat list" where
  "leadingDigits dv [] = []"
| "leadingDigits dv (c # cs) =
     (case dv c of None \<Rightarrow> [] | Some d \<Rightarrow> d # leadingDigits dv cs)"

text \<open>The integer that a run of digits denotes in a radix.\<close>

definition digitsToInteger :: "int \<Rightarrow> nat list \<Rightarrow> int" where
  "digitsToInteger radix ds = foldl (\<lambda>acc d. acc * radix + int d) 0 ds"

text \<open>The number of bits of a positive integer, 0 for the others.\<close>

function bitLength :: "int \<Rightarrow> nat" where
  "bitLength n = (if n \<le> 0 then 0 else Suc (bitLength (n div 2)))"
  by pat_completeness auto
termination
  by (relation "measure nat") auto

text \<open>
  The double nearest to a non-negative integer, ties going to the even significand:
  an integer below \<open>2^53\<close> is a double; a larger one keeps its 53 leading bits, rounded;
  \<open>None\<close> is the overflow to infinity, from \<open>2^1024\<close> on.
\<close>

definition roundToDouble :: "int \<Rightarrow> int option" where
  "roundToDouble n =
     (if n < 2 ^ 53 then Some n
      else (let e = bitLength n - 53;
                q = n div 2 ^ e;
                r = n mod 2 ^ e;
                half = 2 ^ (e - 1);
                q' = (if half < r \<or> (r = half \<and> odd q) then q + 1 else q)
            in if 2 ^ 1024 \<le> q' * 2 ^ e then None else Some (q' * 2 ^ e)))"

text \<open>
  \<open>parseInt(s)\<close> with no radix argument: leading white space is skipped, then an
  optional sign, then \<open>0x\<close>/\<open>0X\<close> selects radix 16, then the longest run of digits is
  read; no digit at all gives \<open>NaN\<close>; the integer read is returned as the nearest
  double. (For more than 20 significant decimal digits the language lets an engine
  replace the digits after the 20th by zeros before rounding; here the exact integer is
  rounded.)
\<close>

definition parseInt :: "string \<Rightarrow> number" where
  "parseInt s =
     (let s1 = skipWhiteSpace s;
          negative = (case s1 of c # _ \<Rightarrow> c = CHR ''-'' | [] \<Rightarrow> False);
          s2 = (case s1 of c # r \<Rightarrow> (if c = CHR ''-'' \<or> c = CHR ''+'' then r else s1) | [] \<Rightarrow> s1);
          hex = (take 2 s2 = ''0x'' \<or> take 2 s2 = ''0X'');
          ds = (if hex then leadingDigits hexDigitValue (drop 2 s2)
                else leadingDigits digitValue s2)
      in if ds = [] then NaN
         else (case roundToDouble (digitsToInteger (if hex then 16 else 10) ds) of
                 None \<Rightarrow> (if negative then NegInfinity else PosInfinity)
               | Some v \<Rightarrow> Finite (if negative then - v else v)))"

section \<open>Semantic versions\<close>

record Semver =
  major :: number
  minor :: number
  patch :: number
  prerelease :: "string option"

text \<open>The character class of the pattern \<open>/^[\^~>=<]+/\<close>.\<close>

definition isRangeOperator :: "char \<Rightarrow> bool" where
  "isRangeOperator c = (c \<in> set [CHR ''^'', CHR ''~'', CHR ''>'', CHR ''='', CHR ''<''])"

text \<open>\<open>parts[i] ?? 0\<close>: reading past the end of the array gives \<open>undefined\<close>, hence 0.\<close>

definition partOr0 :: "number list \<Rightarrow> nat \<Rightarrow> number" where
  "partOr0 parts i = (if i < length parts then parts ! i else Finite 0)"

definition parseSemver :: "string \<Rightarrow> Semver" where
  "parseSemver v =
     (let cleaned = dropWhile isRangeOperator v;
          segments = split_on CHR ''-'' cleaned;
          main = (case segments of m # _ \<Rightarrow> m | [] \<Rightarrow> ''0.0.0'');
          pre = (case segments of _ # p # _ \<Rightarrow> Some p | _ \<Rightarrow> None);
          parts = map (\<lambda>p. orZero (parseInt p)) (split_on CHR ''.'' main)
      in \<lparr> major = partOr0 parts 0, minor = partOr0 parts 1, patch = partOr0 parts 2,
           prerelease = pre \<rparr>)"

text \<open>Truthiness of an optional string: \<open>undefined\<close> and the empty string are falsy.\<close>

definition truthy :: "string option \<Rightarrow> bool" where
  "truthy s = (case s of None \<Rightarrow> False | Some t \<Rightarrow> t \<noteq> [])"

definition compareSemver :: "string \<Rightarrow> string \<Rightarrow> int" where
  "compareSemver a b =
     (let verA = parseSemver a; verB = parseSemver b in
      if numNotEqual (major verA) (major verB)
      then (if numGreater (major verA) (major verB) then 1 else - 1)
      else if numNotEqual (minor verA) (minor verB)
      then (if numGreater (minor verA) (minor verB) then 1 else - 1)
      else if numNotEqual (patch verA) (patch verB)
      then (if numGreater (patch verA) (patch verB) then 1 else - 1)
      else if truthy (prerelease verA) \<and> \<not> truthy (prerelease verB) then - 1
      else if \<not> truthy (prerelease verA) \<and> truthy (prerelease verB) then 1
      else 0)"

section \<open>The merge engine\<close>

text \<open>
  One iteration of the loop of \<open>mergeDependencies\<close>. The non-null assertion
  \<open>merged.get(dep.name)!\<close> reads a key that is present (it was found as \<open>existing\<close>);
  the branch for an absent key is never taken.
\<close>

definition mergeDependencies_step ::
  "Dependency \<Rightarrow> (string \<times> Dependency) list \<Rightarrow> (string \<times> Dependency) list" where
  "mergeDependencies_step dep merged =
     (case map_of merged (name dep) of
        Some existing \<Rightarrow>
          (let merged1 = (if compareSemver (version dep) (version existing) > 0
                          then AList.update (name dep) dep merged else merged)
           in if dev existing = Some False \<or> dev dep = Some False
              then (case map_of merged1 (name dep) of
                      Some current \<Rightarrow> AList.update (name dep) (current\<lparr>dev := Some False\<rparr>) merged1
                    | None \<Rightarrow> merged1)
              else merged1)
      | None \<Rightarrow> AList.update (name dep) dep merged)"

definition mergeDependencies :: "Dependency list \<Rightarrow> Dependency list \<Rightarrow> Dependency list" where
  "mergeDependencies a b = map snd (fold mergeDependencies_step (a @ b) [])"

datatype FileStrategy = LastWins | FirstWins | ErrorStrategy

definition conflictMessage :: "string \<Rightarrow> string" where
  "conflictMessage p = ''File conflict: '' @ p @ '' is generated by multiple plugins''"

text \<open>The loop over \<open>allFiles\<close>; the throw leaves the loop at once.\<close>

fun mergeFiles :: "FileStrategy \<Rightarrow> GeneratedFile list \<Rightarrow> (string \<times> GeneratedFile) list
    \<Rightarrow> error + (string \<times> GeneratedFile) list" where
  "mergeFiles fileStrategy [] fileMap = Inr fileMap"
| "mergeFiles fileStrategy (file # rest) fileMap =
     (case map_of fileMap (path file) of
        Some existing \<Rightarrow>
          (if fileStrategy = ErrorStrategy then Inl (Error (conflictMessage (path file)))
           else if fileStrategy = LastWins
           then mergeFiles fileStrategy rest (AList.update (path file) file fileMap)
           else mergeFiles fileStrategy rest fileMap)
      | None \<Rightarrow> mergeFiles fileStrategy rest (AList.update (path file) file fileMap))"

text \<open>
  The third argument is \<open>options.fileStrategy\<close>; \<open>None\<close> is the default \<open>'last-wins'\<close>.
  The returned object is built from \<open>files\<close> and \<open>dependencies\<close> only.
\<close>

definition mergeGeneratedCode ::
  "GeneratedCode \<Rightarrow> GeneratedCode \<Rightarrow> FileStrategy option \<Rightarrow> error + GeneratedCode" where
  "mergeGeneratedCode a b options =
     (let fileStrategy = (case options of None \<Rightarrow> LastWins | Some s \<Rightarrow> s) in
      case mergeFiles fileStrategy (files a @ files b) [] of
        Inl e \<Rightarrow> Inl e
      | Inr fileMap \<Rightarrow>
          Inr \<lparr> files = map snd fileMap,
                dependencies = mergeDependencies (dependencies a) (dependencies b),
                metadata = None \<rparr>)"

section \<open>Schema IR\<close>

datatype ScalarType =
  StringT | NumberT | IntegerT | BooleanT | DateT | DatetimeT | TimeT | JsonT
  | BigintT | DecimalT | FloatT | BytesT | UuidT

datatype RelationType = OneToOne | OneToMany | ManyToOne | ManyToMany

record FieldRelation =
  fr_type :: RelationType
  fr_model :: string
  fr_field :: string
  fr_foreignKey :: "string option"
  fr_name :: "string option"

datatype DefaultFunction = Now | Uuid | Cuid | Autoincrement | Dbgenerated

datatype FieldDefault = Literal string | Function DefaultFunction | Expression string

text \<open>
  Parts of the model that no function below reads are kept as opaque types:
  validation rules, indexes, constraints and model-level auth configuration.
\<close>

typedecl ValidationRules
typedecl Index
typedecl Constraint
typedecl ModelAuthConfig

datatype FieldType =
    ScalarField ScalarType
  | EnumField string
  | ArrayField FieldType
  | ObjectField "Field list"
  | ReferenceField string
and Field =
  Field (field_name: string) (field_type: FieldType) (field_description: "string option")
    (field_required: bool) (field_unique: "bool option") (field_primaryKey: "bool option")
    (field_default: "FieldDefault option") (field_validation: "ValidationRules option")
    (field_relation: "FieldRelation option") (field_columnName: "string option")
    (field_hidden: "bool option") (field_readOnly: "bool option")
    (field_writeOnly: "bool option")

record CrudConfig =
  crud_create :: bool
  crud_read :: bool
  crud_update :: bool
  crud_delete :: bool
  crud_list :: bool
  crud_bulkCreate :: "bool option"
  crud_bulkUpdate :: "bool option"
  crud_bulkDelete :: "bool option"
  crud_upsert :: "bool option"
  crud_count :: "bool option"

record Model =
  model_name :: string
  model_description :: "string option"
  model_tableName :: "string option"
  model_fields :: "Field list"
  model_indexes :: "Index list option"
  model_constraints :: "Constraint list option"
  model_crud :: CrudConfig
  model_auth :: "ModelAuthConfig option"
  model_softDelete :: "bool option"
  model_timestamps :: "bool option"

datatype CascadeAction = Cascade | Restrict | SetNull | SetDefault | NoAction

record RelationEnd =
  end_model :: string
  end_field :: string

record RelationThrough =
  through_model :: string
  through_fromField :: string
  through_toField :: string

record Relation =
  rel_name :: string
  rel_type :: RelationType
  rel_from :: RelationEnd
  rel_to :: RelationEnd
  rel_onDelete :: "CascadeAction option"
  rel_onUpdate :: "CascadeAction option"
  rel_through :: "RelationThrough option"

record EnumValue =
  ev_name :: string
  ev_value :: "string option"
  ev_description :: "string option"

record Enum =
  enum_name :: string
  enum_description :: "string option"
  enum_values :: "EnumValue list"

datatype SchemaSource = Openapi | Prisma | JsonSchema | Zod | Typebox | Vld

record SchemaMetadata =
  meta_name :: string
  meta_description :: "string option"
  meta_source :: SchemaSource
  meta_sourceVersion :: "string option"
  meta_filePath :: "string option"
  meta_generatedAt :: "string option"

record SchemaIR =
  ir_version :: string
  ir_metadata :: SchemaMetadata
  ir_models :: "Model list"
  ir_enums :: "Enum list"
  ir_relations :: "Relation list"

definition createDefaultCrudConfig :: CrudConfig where
  "createDefaultCrudConfig =
     \<lparr> crud_create = True, crud_read = True, crud_update = True, crud_delete = True,
       crud_list = True, crud_bulkCreate = Some False, crud_bulkUpdate = Some False,
       crud_bulkDelete = Some False, crud_upsert = Some False, crud_count = Some True \<rparr>"

section \<open>Relation extraction of the Prisma parser\<close>

text \<open>
  The inner loop of \<open>extractRelations\<close> over the fields of one model, pushing onto
  \<open>relations\<close>. A relation object is always truthy, so \<open>field.relation &&\<close> tests
  that the field has one.
\<close>

fun extractRelations_fields ::
  "string set \<Rightarrow> Model \<Rightarrow> Field list \<Rightarrow> Relation list \<Rightarrow> Relation list" where
  "extractRelations_fields modelNames model [] relations = relations"
| "extractRelations_fields modelNames model (field # rest) relations =
     (case field_relation field of
        Some r \<Rightarrow>
          (if fr_model r \<in> modelNames
           then extractRelations_fields modelNames model rest
                  (relations @
                    [\<lparr> rel_name = (case fr_name r of
                                       Some n \<Rightarrow> n
                                     | None \<Rightarrow> model_name model @ ''_'' @ field_name field),
                        rel_type = fr_type r,
                        rel_from = \<lparr> end_model = model_name model, end_field = field_name field \<rparr>,
                        rel_to = \<lparr> end_model = fr_model r, end_field = fr_field r \<rparr>,
                        rel_onDelete = None, rel_onUpdate = None, rel_through = None \<rparr>])
           else extractRelations_fields modelNames model rest relations)
      | None \<Rightarrow> extractRelations_fields modelNames model rest relations)"

text \<open>The outer loop over the models.\<close>

fun extractRelations_models ::
  "string set \<Rightarrow> Model list \<Rightarrow> Relation list \<Rightarrow> Relation list" where
  "extractRelations_models modelNames [] relations = relations"
| "extractRelations_models modelNames (model # rest) relations =
     extractRelations_models modelNames rest
       (extractRelations_fields modelNames model (model_fields model) relations)"

definition extractRelations :: "Model list \<Rightarrow> Relation list" where
  "extractRelations models =
     extractRelations_models (set (map model_name models)) models []"

text \<open>
  The relation the spec derives from one field hint: the entry built from model
  \<open>m\<close>, field \<open>f\<close> and hint \<open>r\<close>.
\<close>

definition relationOf :: "Model \<Rightarrow> Field \<Rightarrow> FieldRelation \<Rightarrow> Relation" where
  "relationOf m f r =
     \<lparr> rel_name = (case fr_name r of Some n \<Rightarrow> n | None \<Rightarrow> model_name m @ ''_'' @ field_name f),
       rel_type = fr_type r,
       rel_from = \<lparr> end_model = model_name m, end_field = field_name f \<rparr>,
       rel_to = \<lparr> end_model = fr_model r, end_field = fr_field r \<rparr>,
       rel_onDelete = None, rel_onUpdate = None, rel_through = None \<rparr>"

text \<open>
  The spec's reading of relation materialization: going through the models and their
  fields in order, a field contributes an entry exactly when it carries a relation hint
  whose target is the name of one of the models.
\<close>

definition materializedRelations :: "Model list \<Rightarrow> Relation list" where
  "materializedRelations models =
     concat (map (\<lambda>m. concat (map (\<lambda>f.
        (case field_relation f of
           None \<Rightarrow> []
         | Some r \<Rightarrow> (if fr_model r \<in> model_name ` set models then [relationOf m f r] else [])))
        (model_fields m))) models)"

section \<open>Plugin contracts\<close>

text \<open>
  A plugin is a record of its identity and of the functions the orchestrator calls.
  The async functions \<open>parse\<close>, \<open>generate\<close> and \<open>adapt\<close> may reject, so they return
  \<open>error + _\<close>; \<open>getDependencies()\<close> returns its array; the optional
  \<open>getPeerDependencies?\<close> is \<open>None\<close> when the plugin has no such function.
\<close>

record ParserOptions =
  filePath :: "string option"

record GenerateOptions =
  opt_schema :: string
  opt_output :: string
  opt_write :: "bool option"
  opt_dryRun :: "bool option"

record ParserPlugin =
  pp_name :: string
  pp_version :: string
  pp_extensions :: "string list"
  pp_parse :: "string \<Rightarrow> ParserOptions \<Rightarrow> error + SchemaIR"

datatype ApiStyle = Rest | Graphql | Trpc

record GeneratorPlugin =
  gp_name :: string
  gp_version :: string
  gp_style :: ApiStyle
  gp_priority :: "int option"
  gp_generate :: "SchemaIR \<Rightarrow> GenerateOptions \<Rightarrow> error + GeneratedCode"
  gp_getDependencies :: "Dependency list"
  gp_getPeerDependencies :: "Dependency list option"

datatype FrameworkType = Express | Fastify | Hono | Koa | Standalone

record AdapterPlugin =
  ap_name :: string
  ap_version :: string
  ap_framework :: FrameworkType
  ap_priority :: "int option"
  ap_adapt :: "GeneratedCode \<Rightarrow> GenerateOptions \<Rightarrow> error + GeneratedCode"
  ap_getDependencies :: "Dependency list"
  ap_getPeerDependencies :: "Dependency list option"

datatype AuthStrategy = Jwt | Oauth | Session | Apikey | MagicLink | Passkey

record AuthPlugin =
  au_name :: string
  au_version :: string
  au_strategy :: AuthStrategy
  au_priority :: "int option"
  au_generate :: "SchemaIR \<Rightarrow> GenerateOptions \<Rightarrow> error + GeneratedCode"
  au_getDependencies :: "Dependency list"
  au_getPeerDependencies :: "Dependency list option"

datatype DatabaseAdapter = PrismaDb | DrizzleDb | KyselyDb | TypeormDb | MongooseDb | RawSqlDb

record DatabasePlugin =
  db_name :: string
  db_version :: string
  db_adapter :: DatabaseAdapter
  db_priority :: "int option"
  db_generate :: "SchemaIR \<Rightarrow> GenerateOptions \<Rightarrow> error + GeneratedCode"
  db_getDependencies :: "Dependency list"
  db_getPeerDependencies :: "Dependency list option"

datatype DeployTarget = Docker | Vercel | Railway | Fly | Lambda | Kubernetes

record DeployPlugin =
  dp_name :: string
  dp_version :: string
  dp_target :: DeployTarget
  dp_priority :: "int option"
  dp_generate :: "GeneratedCode \<Rightarrow> GenerateOptions \<Rightarrow> error + GeneratedCode"
  dp_getDependencies :: "Dependency list"

section \<open>The orchestrator\<close>

text \<open>
  What the orchestrator reaches outside itself: the file system, \<open>fetch\<close>, path
  resolution and the emitter's \<open>writeGeneratedCode\<close>.
\<close>

record FetchResponse =
  ok :: bool
  statusText :: string
  body :: "error + string"

record Env =
  existsSync :: "string \<Rightarrow> bool"
  readFile :: "string \<Rightarrow> error + string"
  fetch :: "string \<Rightarrow> error + FetchResponse"
  resolve :: "string \<Rightarrow> string"
  writeGeneratedCode :: "GeneratedCode \<Rightarrow> string \<Rightarrow> error + unit"

text \<open>
  Every call that leaves the orchestrator is recorded, in order: a run returns the
  calls it made together with its result or the error that ended it.
\<close>

datatype Event =
    InputRead string
  | ParserCalled string string
  | GeneratorCalled string
  | AdapterCalled string GeneratedCode
  | AuthCalled string
  | DatabaseCalled string
  | DeployCalled string GeneratedCode
  | FilesWritten GeneratedCode string

type_synonym 'a run = "Event list \<times> (error + 'a)"

definition bind_run :: "'a run \<Rightarrow> ('a \<Rightarrow> 'b run) \<Rightarrow> 'b run" where
  "bind_run m f =
     (case m of
        (t, Inl e) \<Rightarrow> (t, Inl e)
      | (t, Inr x) \<Rightarrow> (case f x of (t', r) \<Rightarrow> (t @ t', r)))"

record OpenGenerator =
  parserPlugins :: "(string \<times> ParserPlugin) list"
  generatorPlugins :: "(string \<times> GeneratorPlugin) list"
  adapterPlugins :: "(string \<times> AdapterPlugin) list"
  authPlugins :: "(string \<times> AuthPlugin) list"
  databasePlugins :: "(string \<times> DatabasePlugin) list"
  deployPlugins :: "(string \<times> DeployPlugin) list"
  selectedParser :: "ParserPlugin option"
  selectedGenerators :: "GeneratorPlugin list"
  selectedAdapter :: "AdapterPlugin option"
  selectedAuth :: "AuthPlugin list"
  selectedDatabase :: "DatabasePlugin option"
  selectedDeploy :: "DeployPlugin list"

definition createGenerator :: OpenGenerator where
  "createGenerator =
     \<lparr> parserPlugins = [], generatorPlugins = [], adapterPlugins = [], authPlugins = [],
       databasePlugins = [], deployPlugins = [], selectedParser = None,
       selectedGenerators = [], selectedAdapter = None, selectedAuth = [],
       selectedDatabase = None, selectedDeploy = [] \<rparr>"

text \<open>\<open>priority ?? 0\<close>.\<close>

definition priorityOr0 :: "int option \<Rightarrow> int" where
  "priorityOr0 p = (case p of None \<Rightarrow> 0 | Some n \<Rightarrow> n)"

text \<open>
  \<open>xs.sort((a, b) => (b.priority ?? 0) - (a.priority ?? 0))\<close>: the stable sort by
  descending priority, which is the stable sort by ascending negated priority.
\<close>

definition sortByPriority :: "('a \<Rightarrow> int option) \<Rightarrow> 'a list \<Rightarrow> 'a list" where
  "sortByPriority prio xs = sort_key (\<lambda>x. - priorityOr0 (prio x)) xs"

definition parser :: "ParserPlugin \<Rightarrow> OpenGenerator \<Rightarrow> OpenGenerator" where
  "parser plugin this =
     this\<lparr> parserPlugins := AList.update (pp_name plugin) plugin (parserPlugins this),
           selectedParser := Some plugin \<rparr>"

definition generator :: "GeneratorPlugin \<Rightarrow> OpenGenerator \<Rightarrow> OpenGenerator" where
  "generator plugin this =
     this\<lparr> generatorPlugins := AList.update (gp_name plugin) plugin (generatorPlugins this),
           selectedGenerators := sortByPriority gp_priority (selectedGenerators this @ [plugin]) \<rparr>"

definition adapter :: "AdapterPlugin \<Rightarrow> OpenGenerator \<Rightarrow> OpenGenerator" where
  "adapter plugin this =
     this\<lparr> adapterPlugins := AList.update (ap_name plugin) plugin (adapterPlugins this),
           selectedAdapter := Some plugin \<rparr>"

definition auth :: "AuthPlugin \<Rightarrow> OpenGenerator \<Rightarrow> OpenGenerator" where
  "auth plugin this =
     this\<lparr> authPlugins := AList.update (au_name plugin) plugin (authPlugins this),
           selectedAuth := sortByPriority au_priority (selectedAuth this @ [plugin]) \<rparr>"

definition database :: "DatabasePlugin \<Rightarrow> OpenGenerator \<Rightarrow> OpenGenerator" where
  "database plugin this =
     this\<lparr> databasePlugins := AList.update (db_name plugin) plugin (databasePlugins this),
           selectedDatabase := Some plugin \<rparr>"

definition deploy :: "DeployPlugin \<Rightarrow> OpenGenerator \<Rightarrow> OpenGenerator" where
  "deploy plugin this =
     this\<lparr> deployPlugins := AList.update (dp_name plugin) plugin (deployPlugins this),
           selectedDeploy := sortByPriority dp_priority (selectedDeploy this @ [plugin]) \<rparr>"

definition reset :: "OpenGenerator \<Rightarrow> OpenGenerator" where
  "reset this =
     this\<lparr> selectedParser := None, selectedGenerators := [], selectedAdapter := None,
           selectedAuth := [], selectedDatabase := None, selectedDeploy := [] \<rparr>"

definition clone :: "OpenGenerator \<Rightarrow> OpenGenerator" where
  "clone this =
     \<lparr> parserPlugins = parserPlugins this, generatorPlugins = generatorPlugins this,
       adapterPlugins = adapterPlugins this, authPlugins = authPlugins this,
       databasePlugins = databasePlugins this, deployPlugins = deployPlugins this,
       selectedParser = selectedParser this, selectedGenerators = selectedGenerators this,
       selectedAdapter = selectedAdapter this, selectedAuth = selectedAuth this,
       selectedDatabase = selectedDatabase this, selectedDeploy = selectedDeploy this \<rparr>"

text \<open>The orchestrators that the builder interface can produce.\<close>

inductive configured :: "OpenGenerator \<Rightarrow> bool" where
  configured_create: "configured createGenerator"
| configured_parser: "configured this \<Longrightarrow> configured (parser p this)"
| configured_generator: "configured this \<Longrightarrow> configured (generator g this)"
| configured_adapter: "configured this \<Longrightarrow> configured (adapter a this)"
| configured_auth: "configured this \<Longrightarrow> configured (auth u this)"
| configured_database: "configured this \<Longrightarrow> configured (database d this)"
| configured_deploy: "configured this \<Longrightarrow> configured (deploy y this)"
| configured_reset: "configured this \<Longrightarrow> configured (reset this)"
| configured_clone: "configured this \<Longrightarrow> configured (clone this)"

definition readInput :: "Env \<Rightarrow> string \<Rightarrow> error + string" where
  "readInput env input =
     (if existsSync env input then readFile env input
      else if prefix ''http://'' input \<or> prefix ''https://'' input
      then (case fetch env input of
              Inl e \<Rightarrow> Inl e
            | Inr response \<Rightarrow>
                (if \<not> ok response
                 then Inl (Error (''Failed to fetch schema from '' @ input @ '': ''
                                   @ statusText response))
                 else body response))
      else Inr input)"

definition parse :: "OpenGenerator \<Rightarrow> Env \<Rightarrow> string \<Rightarrow> SchemaIR run" where
  "parse this env input =
     (case selectedParser this of
        None \<Rightarrow> ([], Inl (Error ''No parser selected. Call .parser() first.''))
      | Some p \<Rightarrow>
          bind_run ([InputRead input], readInput env input) (\<lambda>content.
            ([ParserCalled (pp_name p) content],
             pp_parse p content
               \<lparr> filePath = (if existsSync env input then Some (resolve env input) else None) \<rparr>)))"

text \<open>Step 1: the loop over the selected generators, merging with the default strategy.\<close>

fun runGenerators ::
  "SchemaIR \<Rightarrow> GenerateOptions \<Rightarrow> GeneratorPlugin list \<Rightarrow> GeneratedCode \<Rightarrow> GeneratedCode run" where
  "runGenerators schema options [] code = ([], Inr code)"
| "runGenerators schema options (gen # rest) code =
     (case gp_generate gen schema options of
        Inl e \<Rightarrow> ([GeneratorCalled (gp_name gen)], Inl e)
      | Inr generated \<Rightarrow>
          (case mergeGeneratedCode code generated None of
             Inl e \<Rightarrow> ([GeneratorCalled (gp_name gen)], Inl e)
           | Inr code' \<Rightarrow>
               (case runGenerators schema options rest code' of
                  (t, r) \<Rightarrow> (GeneratorCalled (gp_name gen) # t, r))))"

text \<open>Step 2: the adapter, if one is selected, transforms the whole accumulator.\<close>

definition applyAdapter :: "OpenGenerator \<Rightarrow> GenerateOptions \<Rightarrow> GeneratedCode \<Rightarrow> GeneratedCode run" where
  "applyAdapter this options code =
     (case selectedAdapter this of
        Some a \<Rightarrow> ([AdapterCalled (ap_name a) code], ap_adapt a code options)
      | None \<Rightarrow> ([], Inr code))"

text \<open>Step 3: the loop over the selected auth plugins.\<close>

fun runAuth ::
  "SchemaIR \<Rightarrow> GenerateOptions \<Rightarrow> AuthPlugin list \<Rightarrow> GeneratedCode \<Rightarrow> GeneratedCode run" where
  "runAuth schema options [] code = ([], Inr code)"
| "runAuth schema options (au # rest) code =
     (case au_generate au schema options of
        Inl e \<Rightarrow> ([AuthCalled (au_name au)], Inl e)
      | Inr authCode \<Rightarrow>
          (case mergeGeneratedCode code authCode None of
             Inl e \<Rightarrow> ([AuthCalled (au_name au)], Inl e)
           | Inr code' \<Rightarrow>
               (case runAuth schema options rest code' of
                  (t, r) \<Rightarrow> (AuthCalled (au_name au) # t, r))))"

text \<open>Step 4: the database layer.\<close>

definition runDatabase ::
  "OpenGenerator \<Rightarrow> SchemaIR \<Rightarrow> GenerateOptions \<Rightarrow> GeneratedCode \<Rightarrow> GeneratedCode run" where
  "runDatabase this schema options code =
     (case selectedDatabase this of
        Some d \<Rightarrow>
          ([DatabaseCalled (db_name d)],
           (case db_generate d schema options of
              Inl e \<Rightarrow> Inl e
            | Inr dbCode \<Rightarrow> mergeGeneratedCode code dbCode None))
      | None \<Rightarrow> ([], Inr code))"

text \<open>Step 5: the loop over the deploy plugins, each given the accumulator so far.\<close>

fun runDeploy ::
  "GenerateOptions \<Rightarrow> DeployPlugin list \<Rightarrow> GeneratedCode \<Rightarrow> GeneratedCode run" where
  "runDeploy options [] code = ([], Inr code)"
| "runDeploy options (dep # rest) code =
     (case dp_generate dep code options of
        Inl e \<Rightarrow> ([DeployCalled (dp_name dep) code], Inl e)
      | Inr deployCode \<Rightarrow>
          (case mergeGeneratedCode code deployCode None of
             Inl e \<Rightarrow> ([DeployCalled (dp_name dep) code], Inl e)
           | Inr code' \<Rightarrow>
               (case runDeploy options rest code' of
                  (t, r) \<Rightarrow> (DeployCalled (dp_name dep) code # t, r))))"

text \<open>\<open>getPeerDependencies?.() ?? []\<close>.\<close>

definition peersOrEmpty :: "Dependency list option \<Rightarrow> Dependency list" where
  "peersOrEmpty p = (case p of None \<Rightarrow> [] | Some ds \<Rightarrow> ds)"

definition collectDependencies :: "OpenGenerator \<Rightarrow> Dependency list \<Rightarrow> Dependency list" where
  "collectDependencies this existing =
     (let deps = existing;
          deps = (case selectedAdapter this of
                    Some a \<Rightarrow> deps @ ap_getDependencies a @ peersOrEmpty (ap_getPeerDependencies a)
                  | None \<Rightarrow> deps);
          deps = deps @ concat (map (\<lambda>gen. gp_getDependencies gen
                                   @ peersOrEmpty (gp_getPeerDependencies gen))
                                (selectedGenerators this));
          deps = deps @ concat (map (\<lambda>au. au_getDependencies au
                                   @ peersOrEmpty (au_getPeerDependencies au))
                                (selectedAuth this));
          deps = (case selectedDatabase this of
                    Some d \<Rightarrow> deps @ db_getDependencies d @ peersOrEmpty (db_getPeerDependencies d)
                  | None \<Rightarrow> deps);
          deps = deps @ concat (map dp_getDependencies (selectedDeploy this))
      in mergeDependencies deps [])"

text \<open>Steps 6 and 7: collect the dependencies, then write unless told not to.\<close>

definition finishGenerate ::
  "OpenGenerator \<Rightarrow> Env \<Rightarrow> GenerateOptions \<Rightarrow> GeneratedCode \<Rightarrow> GeneratedCode run" where
  "finishGenerate this env options code =
     (let code' = code\<lparr> dependencies := collectDependencies this (dependencies code) \<rparr> in
      if opt_output options \<noteq> [] \<and> opt_write options \<noteq> Some False
         \<and> opt_dryRun options \<noteq> Some True
      then ([FilesWritten code' (opt_output options)],
            (case writeGeneratedCode env code' (opt_output options) of
               Inl e \<Rightarrow> Inl e
             | Inr u \<Rightarrow> Inr code'))
      else ([], Inr code'))"

text \<open>Steps 3 to 7, everything that follows the adapter.\<close>

definition afterAdapter ::
  "OpenGenerator \<Rightarrow> Env \<Rightarrow> SchemaIR \<Rightarrow> GenerateOptions \<Rightarrow> GeneratedCode \<Rightarrow> GeneratedCode run" where
  "afterAdapter this env schema options code =
     bind_run (runAuth schema options (selectedAuth this) code) (\<lambda>code.
     bind_run (runDatabase this schema options code) (\<lambda>code.
     bind_run (runDeploy options (selectedDeploy this) code) (\<lambda>code.
     finishGenerate this env options code)))"

definition generate :: "OpenGenerator \<Rightarrow> Env \<Rightarrow> GenerateOptions \<Rightarrow> GeneratedCode run" where
  "generate this env options =
     bind_run (parse this env (opt_schema options)) (\<lambda>schema.
     bind_run (runGenerators schema options (selectedGenerators this)
                 \<lparr> files = [], dependencies = [], metadata = None \<rparr>) (\<lambda>code.
     bind_run (applyAdapter this options code) (\<lambda>code.
     afterAdapter this env schema options code)))"

record ValidateResult =
  valid :: bool
  errors :: "string list"
  warnings :: "string list"

definition validate :: "OpenGenerator \<Rightarrow> ValidateResult" where
  "validate this =
     (let errors = [];
          warnings = [];
          errors = (if selectedParser this = None then errors @ [''No parser selected'']
                    else errors);
          errors = (if length (selectedGenerators this) = 0
                    then errors @ [''No generators selected''] else errors);
          warnings = (if selectedAdapter this = None
                      then warnings @ [''No adapter selected - generated code may not be framework-specific'']
                      else warnings);
          warnings = (if length (selectedAuth this) = 0
                      then warnings @ [''No auth plugins selected - API will be unauthenticated'']
                      else warnings);
          warnings = (if selectedDatabase this = None
                      then warnings @ [''No database plugin selected - no database layer will be generated'']
                      else warnings)
      in \<lparr> valid = (length errors = 0), errors = errors, warnings = warnings \<rparr>)"

section \<open>Notions used to state the merge rules\<close>

text \<open>A map whose keys are distinct and are the keys of the values stored under them.\<close>

definition keyed :: "('v \<Rightarrow> string) \<Rightarrow> (string \<times> 'v) list \<Rightarrow> bool" where
  "keyed key m = (distinct (map fst m) \<and> (\<forall>kv \<in> set m. key (snd kv) = fst kv))"

text \<open>
  The order in which \<open>compareSemver\<close> puts two parsed versions: the numeric tuple first,
  then release over prerelease.
\<close>

definition tupleLess :: "Semver \<Rightarrow> Semver \<Rightarrow> bool" where
  "tupleLess x y =
     (numGreater (major y) (major x) \<or>
      (major x = major y \<and>
         (numGreater (minor y) (minor x) \<or>
          (minor x = minor y \<and> numGreater (patch y) (patch x)))))"

definition tupleEq :: "Semver \<Rightarrow> Semver \<Rightarrow> bool" where
  "tupleEq x y = (major x = major y \<and> minor x = minor y \<and> patch x = patch y)"

definition isPrerelease :: "string \<Rightarrow> bool" where
  "isPrerelease v = truthy (prerelease (parseSemver v))"

definition outranks :: "string \<Rightarrow> string \<Rightarrow> bool" where
  "outranks v w =
     (tupleLess (parseSemver w) (parseSemver v) \<or>
      (tupleEq (parseSemver v) (parseSemver w) \<and> \<not> isPrerelease v \<and> isPrerelease w))"












text \<open>
  What one same-name collision leaves in the map: the later entry if its version
  outranks the existing one, else the existing entry, with \<open>dev\<close> forced to \<open>false\<close>
  when either entry has \<open>dev === false\<close>.
\<close>

definition resolveDependency :: "Dependency \<Rightarrow> Dependency \<Rightarrow> Dependency" where
  "resolveDependency existing dep =
     (let winner = (if compareSemver (version dep) (version existing) > 0 then dep else existing)
      in if dev existing = Some False \<or> dev dep = Some False
         then winner\<lparr>dev := Some False\<rparr> else winner)"

text \<open>The first element of a list that already occurred before it (or in \<open>seen\<close>).\<close>

fun firstDuplicate :: "string list \<Rightarrow> string list \<Rightarrow> string option" where
  "firstDuplicate seen [] = None"
| "firstDuplicate seen (p # ps) =
     (if p \<in> set seen then Some p else firstDuplicate (seen @ [p]) ps)"

text \<open>The recorded calls of \<open>adapt\<close>.\<close>

fun isAdapterCall :: "Event \<Rightarrow> bool" where
  "isAdapterCall (AdapterCalled n code) = True"
| "isAdapterCall e = False"

section \<open>Concrete scenarios\<close>

text \<open>The stubs of the repository's own tests, and the scenarios the spec describes.\<close>

definition plainFile :: "string \<Rightarrow> string \<Rightarrow> GeneratedFile" where
  "plainFile p c =
     \<lparr> path = p, content = c, file_type = None, overwrite = None, encoding = None, mode = None \<rparr>"

definition plainDependency :: "string \<Rightarrow> string \<Rightarrow> bool option \<Rightarrow> Dependency" where
  "plainDependency n v d = \<lparr> name = n, version = v, dep_type = None, dev = d \<rparr>"



definition plainCode :: "GeneratedFile list \<Rightarrow> Dependency list \<Rightarrow> GeneratedCode" where
  "plainCode fs ds = \<lparr> files = fs, dependencies = ds, metadata = None \<rparr>"

definition plainField :: "string \<Rightarrow> FieldType \<Rightarrow> bool \<Rightarrow> FieldRelation option \<Rightarrow> Field" where
  "plainField n t req rel =
     Field n t None req None None None None rel None None None None"

definition plainModel :: "string \<Rightarrow> Field list \<Rightarrow> Model" where
  "plainModel n fs =
     \<lparr> model_name = n, model_description = None, model_tableName = None, model_fields = fs,
       model_indexes = None, model_constraints = None, model_crud = createDefaultCrudConfig,
       model_auth = None, model_softDelete = None, model_timestamps = None \<rparr>"

definition mockSchema :: SchemaIR where
  "mockSchema =
     \<lparr> ir_version = ''1.0.0'',
       ir_metadata = \<lparr> meta_name = ''test'', meta_description = None, meta_source = Prisma,
                       meta_sourceVersion = None, meta_filePath = None, meta_generatedAt = None \<rparr>,
       ir_models = [plainModel ''User''
                     [plainField ''id'' (ScalarField StringT) True None,
                      plainField ''email'' (ScalarField StringT) True None,
                      plainField ''name'' (ScalarField StringT) False None]],
       ir_enums = [], ir_relations = [] \<rparr>"

definition mockParser :: ParserPlugin where
  "mockParser =
     \<lparr> pp_name = ''mock-parser'', pp_version = ''1.0.0'', pp_extensions = [''.mock''],
       pp_parse = (\<lambda>input options. Inr mockSchema) \<rparr>"

definition mockGenerator :: GeneratorPlugin where
  "mockGenerator =
     \<lparr> gp_name = ''mock-generator'', gp_version = ''1.0.0'', gp_style = Rest, gp_priority = None,
       gp_generate = (\<lambda>schema options. Inr (plainCode
          [plainFile ''src/routes/users.ts'' ''// User routes'']
          [plainDependency ''express'' ''^4.18.0'' None])),
       gp_getDependencies = [plainDependency ''express'' ''^4.18.0'' None],
       gp_getPeerDependencies = None \<rparr>"

definition mockAdapter :: AdapterPlugin where
  "mockAdapter =
     \<lparr> ap_name = ''mock-adapter'', ap_version = ''1.0.0'', ap_framework = Express,
       ap_priority = None,
       ap_adapt = (\<lambda>code options. Inr (plainCode [plainFile ''server.ts'' ''// server''] [])),
       ap_getDependencies = [], ap_getPeerDependencies = None \<rparr>"

definition highGenerator :: GeneratorPlugin where
  "highGenerator =
     \<lparr> gp_name = ''high'', gp_version = ''1.0.0'', gp_style = Rest, gp_priority = Some 10,
       gp_generate = (\<lambda>schema options. Inr (plainCode
          [plainFile ''high-only.ts'' ''h'', plainFile ''common.ts'' ''high''] [])),
       gp_getDependencies = [], gp_getPeerDependencies = None \<rparr>"

definition lowGenerator :: GeneratorPlugin where
  "lowGenerator =
     \<lparr> gp_name = ''low'', gp_version = ''1.0.0'', gp_style = Rest, gp_priority = Some 5,
       gp_generate = (\<lambda>schema options. Inr (plainCode
          [plainFile ''low-only.ts'' ''l'', plainFile ''common.ts'' ''low''] [])),
       gp_getDependencies = [], gp_getPeerDependencies = None \<rparr>"

text \<open>
  The models \<open>User\<close> and \<open>Post\<close>, where \<open>Post.author\<close> declares a relation to \<open>User\<close>
  and \<open>Post.editor\<close> one to \<open>Person\<close>, which is not a model.
\<close>

definition authorHint :: FieldRelation where
  "authorHint =
     \<lparr> fr_type = ManyToOne, fr_model = ''User'', fr_field = ''id'',
       fr_foreignKey = Some ''authorId'', fr_name = None \<rparr>"

definition editorHint :: FieldRelation where
  "editorHint =
     \<lparr> fr_type = ManyToOne, fr_model = ''Person'', fr_field = ''id'',
       fr_foreignKey = Some ''editorId'', fr_name = None \<rparr>"

definition userModel :: Model where
  "userModel =
     plainModel ''User''
       [plainField ''id'' (ScalarField StringT) False None,
        plainField ''email'' (ScalarField StringT) True None]"

definition authorField :: Field where
  "authorField = plainField ''author'' (ReferenceField ''User'') True (Some authorHint)"

definition editorField :: Field where
  "editorField = plainField ''editor'' (ReferenceField ''Person'') True (Some editorHint)"

definition postModel :: Model where
  "postModel =
     plainModel ''Post''
       [plainField ''id'' (ScalarField StringT) False None, authorField, editorField]"

text \<open>Generated code for the merge scenarios.\<close>

definition emptyCode :: GeneratedCode where
  "emptyCode = plainCode [] []"

definition metadataCode :: GeneratedCode where
  "metadataCode =
     \<lparr> files = [plainFile ''a.ts'' ''content-a''],
       dependencies = [plainDependency ''express'' ''^4.18.0'' None],
       metadata = Some [(''generator'', ''rest'')] \<rparr>"

definition expressCode :: GeneratedCode where
  "expressCode =
     plainCode [plainFile ''src/routes/users.ts'' ''// User routes'']
       [plainDependency ''express'' ''^4.18.0'' None]"

definition twiceIndexCode :: GeneratedCode where
  "twiceIndexCode = plainCode [plainFile ''index.ts'' ''one'', plainFile ''index.ts'' ''two''] []"

definition twiceExpressCode :: GeneratedCode where
  "twiceExpressCode =
     plainCode [] [plainDependency ''express'' ''^4.0.0'' None,
                   plainDependency ''express'' ''^5.0.0'' None]"

definition otherCode :: GeneratedCode where
  "otherCode = plainCode [plainFile ''other.ts'' ''x''] []"

definition oldCode :: GeneratedCode where
  "oldCode = plainCode [plainFile ''index.ts'' ''old content'', plainFile ''a.ts'' ''content-a''] []"

definition newCode :: GeneratedCode where
  "newCode = plainCode [plainFile ''index.ts'' ''new content'', plainFile ''b.ts'' ''content-b''] []"

definition sharedTwoFirst :: GeneratedCode where
  "sharedTwoFirst = plainCode [plainFile ''x.ts'' ''x1'', plainFile ''index.ts'' ''content''] []"

definition sharedTwoSecond :: GeneratedCode where
  "sharedTwoSecond =
     plainCode [plainFile ''x.ts'' ''x2'', plainFile ''index.ts'' ''other content''] []"

text \<open>An environment with no files, and the options of the repository's tests.\<close>

definition emptyEnv :: Env where
  "emptyEnv =
     \<lparr> existsSync = (\<lambda>p. False), readFile = (\<lambda>p. Inl (Error ''ENOENT'')),
       fetch = (\<lambda>u. Inl (Error ''fetch failed'')), resolve = (\<lambda>p. p),
       writeGeneratedCode = (\<lambda>code dir. Inr ()) \<rparr>"

definition testOptions :: GenerateOptions where
  "testOptions =
     \<lparr> opt_schema = ''test'', opt_output = ''./test-output'', opt_write = Some False,
       opt_dryRun = None \<rparr>"

definition priorityOrchestrator :: OpenGenerator where
  "priorityOrchestrator = generator lowGenerator (generator highGenerator (parser mockParser createGenerator))"

definition priorityOrchestratorReversed :: OpenGenerator where
  "priorityOrchestratorReversed =
     generator highGenerator (generator lowGenerator (parser mockParser createGenerator))"

definition adapterOrchestrator :: OpenGenerator where
  "adapterOrchestrator =
     adapter mockAdapter (generator mockGenerator (parser mockParser createGenerator))"


section \<open>Configuration checks\<close>

lemma configured_registered:
  "configured this \<Longrightarrow>
     (parserPlugins this = [] \<longrightarrow> selectedParser this = None) \<and>
     (generatorPlugins this = [] \<longrightarrow> selectedGenerators this = []) \<and>
     (adapterPlugins this = [] \<longrightarrow> selectedAdapter this = None)"
  by (induction rule: configured.induct)
     (simp_all add: createGenerator_def parser_def generator_def adapter_def auth_def
        database_def deploy_def reset_def clone_def)

lemma mentions_parser: "sublist ''parser'' ''No parser selected''"
  by (simp add: sublist_Cons_right)

lemma mentions_generator: "sublist ''generator'' ''No generators selected''"
  by (simp add: sublist_Cons_right)

lemma mentions_adapter:
  "sublist ''adapter'' ''No adapter selected - generated code may not be framework-specific''"
  by (simp add: sublist_Cons_right)

lemma validate_no_parser:
  "selectedParser this = None \<Longrightarrow>
     \<not> valid (validate this) \<and> ''No parser selected'' \<in> set (errors (validate this))"
  by (simp add: validate_def Let_def)

lemma validate_no_generator:
  "selectedGenerators this = [] \<Longrightarrow>
     \<not> valid (validate this) \<and> ''No generators selected'' \<in> set (errors (validate this))"
  by (simp add: validate_def Let_def)

lemma validate_both:
  "selectedParser this \<noteq> None \<Longrightarrow> selectedGenerators this \<noteq> [] \<Longrightarrow>
     valid (validate this) \<and> errors (validate this) = []"
  by (simp add: validate_def Let_def)

lemma validate_no_adapter:
  "selectedAdapter this = None \<Longrightarrow>
     ''No adapter selected - generated code may not be framework-specific''
       \<in> set (warnings (validate this))"
  by (simp add: validate_def Let_def)

text \<open>
  Claim C9. For an orchestrator produced by the builder interface: with no parser
  registered (or none selected), \<open>validate()\<close> returns \<open>valid: false\<close> and an error
  entry that contains \<open>parser\<close>; with zero generators it returns \<open>valid: false\<close> and an
  error entry that contains \<open>generator\<close>; with a parser and at least one generator
  selected it returns \<open>valid: true\<close> with no errors, and then, when no adapter is
  registered (or none selected), a warning entry contains \<open>adapter\<close>. \<open>validate\<close> is a
  total function into the result record: it has no throwing branch.
\<close>

theorem validate_reports_missing_plugins:
  assumes "configured this"
  shows "(parserPlugins this = [] \<or> selectedParser this = None \<longrightarrow>
            \<not> valid (validate this) \<and>
            (\<exists>e \<in> set (errors (validate this)). sublist ''parser'' e)) \<and>
         (generatorPlugins this = [] \<or> selectedGenerators this = [] \<longrightarrow>
            \<not> valid (validate this) \<and>
            (\<exists>e \<in> set (errors (validate this)). sublist ''generator'' e)) \<and>
         (selectedParser this \<noteq> None \<and> selectedGenerators this \<noteq> [] \<longrightarrow>
            valid (validate this) \<and> errors (validate this) = [] \<and>
            (adapterPlugins this = [] \<or> selectedAdapter this = None \<longrightarrow>
               (\<exists>w \<in> set (warnings (validate this)). sublist ''adapter'' w)))"
proof -
  from assms have reg:
    "parserPlugins this = [] \<longrightarrow> selectedParser this = None"
    "generatorPlugins this = [] \<longrightarrow> selectedGenerators this = []"
    "adapterPlugins this = [] \<longrightarrow> selectedAdapter this = None"
    using configured_registered by blast+
  have p: "parserPlugins this = [] \<or> selectedParser this = None \<longrightarrow>
            \<not> valid (validate this) \<and>
            (\<exists>e \<in> set (errors (validate this)). sublist ''parser'' e)"
    using reg(1) validate_no_parser mentions_parser by blast
  have g: "generatorPlugins this = [] \<or> selectedGenerators this = [] \<longrightarrow>
            \<not> valid (validate this) \<and>
            (\<exists>e \<in> set (errors (validate this)). sublist ''generator'' e)"
    using reg(2) validate_no_generator mentions_generator by blast
  have a: "adapterPlugins this = [] \<or> selectedAdapter this = None \<longrightarrow>
               (\<exists>w \<in> set (warnings (validate this)). sublist ''adapter'' w)"
    using reg(3) validate_no_adapter mentions_adapter by blast
  show ?thesis using p g a validate_both by blast
qed

theorem validate_reports_missing_plugins_witness:
  "configured createGenerator \<and>
   \<not> valid (validate createGenerator) \<and>
   (\<exists>e \<in> set (errors (validate createGenerator)). sublist ''parser'' e) \<and>
   configured (parser mockParser createGenerator) \<and>
   \<not> valid (validate (parser mockParser createGenerator)) \<and>
   (\<exists>e \<in> set (errors (validate (parser mockParser createGenerator))). sublist ''generator'' e) \<and>
   configured (generator mockGenerator (parser mockParser createGenerator)) \<and>
   valid (validate (generator mockGenerator (parser mockParser createGenerator))) \<and>
   (\<exists>w \<in> set (warnings (validate (generator mockGenerator (parser mockParser createGenerator)))).
      sublist ''adapter'' w)"
proof -
  have c0: "configured createGenerator" by (rule configured_create)
  have c1: "configured (parser mockParser createGenerator)"
    by (rule configured_parser [OF c0])
  have c2: "configured (generator mockGenerator (parser mockParser createGenerator))"
    by (rule configured_generator [OF c1])
  have s0: "selectedParser createGenerator = None" by (simp add: createGenerator_def)
  have s1: "selectedGenerators (parser mockParser createGenerator) = []"
    by (simp add: createGenerator_def parser_def)
  have s2: "selectedParser (generator mockGenerator (parser mockParser createGenerator)) \<noteq> None"
    "selectedGenerators (generator mockGenerator (parser mockParser createGenerator)) \<noteq> []"
    "selectedAdapter (generator mockGenerator (parser mockParser createGenerator)) = None"
    by (simp_all add: createGenerator_def parser_def generator_def sortByPriority_def)
  show ?thesis
    using validate_reports_missing_plugins [OF c0] validate_reports_missing_plugins [OF c1]
      validate_reports_missing_plugins [OF c2] c0 c1 c2 s0 s1 s2
    by blast
qed

section \<open>Running without a parser\<close>

text \<open>
  Claim C10. On an orchestrator with no parser selected, \<open>parse(input)\<close> throws the
  error \<open>No parser selected. Call .parser() first.\<close>, and so does \<open>generate(options)\<close>;
  the list of calls made is empty: the input was not read, no parser, generator,
  adapter, auth, database or deploy plugin was called, and nothing was written.
\<close>

theorem no_parser_selected_throws:
  "selectedParser this = None \<Longrightarrow>
     parse this env input = ([], Inl (Error ''No parser selected. Call .parser() first.'')) \<and>
     generate this env options = ([], Inl (Error ''No parser selected. Call .parser() first.''))"
  by (simp add: parse_def generate_def bind_run_def)

theorem no_parser_selected_throws_witness:
  "selectedParser createGenerator = None \<and>
   parse createGenerator emptyEnv ''test''
     = ([], Inl (Error ''No parser selected. Call .parser() first.'')) \<and>
   generate createGenerator emptyEnv testOptions
     = ([], Inl (Error ''No parser selected. Call .parser() first.''))"
  using no_parser_selected_throws [of createGenerator emptyEnv "''test''" testOptions]
  by (simp add: createGenerator_def)

section \<open>Relation materialization\<close>

lemma extractRelations_fields_eq:
  "extractRelations_fields names m fs acc =
     acc @ concat (map (\<lambda>f. case field_relation f of
           None \<Rightarrow> []
         | Some r \<Rightarrow> (if fr_model r \<in> names then [relationOf m f r] else [])) fs)"
  by (induction fs arbitrary: acc) (simp_all add: relationOf_def split: option.splits)

lemma extractRelations_models_eq:
  "extractRelations_models names ms acc =
     acc @ concat (map (\<lambda>m. concat (map (\<lambda>f. case field_relation f of
           None \<Rightarrow> []
         | Some r \<Rightarrow> (if fr_model r \<in> names then [relationOf m f r] else []))
        (model_fields m))) ms)"
  by (induction ms arbitrary: acc) (simp_all add: extractRelations_fields_eq)

lemma extractRelations_materialized: "extractRelations models = materializedRelations models"
  by (simp add: extractRelations_def materializedRelations_def extractRelations_models_eq)

lemma materialized_iff:
  "r \<in> set (materializedRelations models) \<longleftrightarrow>
     (\<exists>m \<in> set models. \<exists>f \<in> set (model_fields m). \<exists>h.
        field_relation f = Some h \<and> fr_model h \<in> model_name ` set models \<and> r = relationOf m f h)"
  unfolding materializedRelations_def
  apply (auto split: option.splits if_splits)
   apply (metis image_eqI)
  apply force
  done

lemma materialized_length:
  "length (materializedRelations models) =
     (\<Sum>m \<leftarrow> models. length (filter (\<lambda>f. \<exists>h. field_relation f = Some h \<and> fr_model h \<in> model_name ` set models) (model_fields m)))"
proof -
  have inner: "(\<Sum>f \<leftarrow> fs. length (case field_relation f of None \<Rightarrow> [] | Some r \<Rightarrow> (if fr_model r \<in> N then [relationOf m f r] else [])))
     = length (filter (\<lambda>f. \<exists>h. field_relation f = Some h \<and> fr_model h \<in> N) fs)" for N m fs
    by (induction fs) (auto split: option.splits)
  show ?thesis
    unfolding materializedRelations_def
    by (simp add: length_concat comp_def inner)
qed


lemma concat_map_skip:
  "(\<And>x. x \<in> set xs \<Longrightarrow> \<not> P x \<Longrightarrow> g x = []) \<Longrightarrow>
     concat (map g xs) = concat (map g (filter P xs))"
  by (induction xs) auto

lemma materialized_model:
  assumes "filter (\<lambda>f. \<exists>h. field_relation f = Some h \<and> fr_model h \<in> N) (model_fields m) = fs"
  shows "concat (map (\<lambda>f. case field_relation f of
           None \<Rightarrow> []
         | Some r \<Rightarrow> (if fr_model r \<in> N then [relationOf m f r] else [])) (model_fields m))
       = concat (map (\<lambda>f. case field_relation f of
           None \<Rightarrow> []
         | Some r \<Rightarrow> (if fr_model r \<in> N then [relationOf m f r] else [])) fs)"
  unfolding assms [symmetric]
  by (rule concat_map_skip) (auto split: option.splits)

lemma materialized_target:
  "r \<in> set (materializedRelations models) \<Longrightarrow> end_model (rel_to r) \<in> model_name ` set models"
  unfolding materialized_iff by (auto simp: relationOf_def)

lemma two_models_one_hint:
  assumes "model_name ` set [user, post] = N"
    and "filter (\<lambda>f. \<exists>h. field_relation f = Some h \<and> fr_model h \<in> N) (model_fields user) = []"
    and "filter (\<lambda>f. \<exists>h. field_relation f = Some h \<and> fr_model h \<in> N) (model_fields post) = [author]"
    and "field_relation author = Some hint" "fr_model hint \<in> N"
  shows "materializedRelations [user, post] = [relationOf post author hint]"
  unfolding materializedRelations_def assms(1)
  using assms(4,5)
  by (simp add: materialized_model [OF assms(2)] materialized_model [OF assms(3)])

lemma user_post_relations:
  assumes "model_name user = ''User''" "model_name post = ''Post''"
    and "filter (\<lambda>f. \<exists>h. field_relation f = Some h \<and> fr_model h \<in> {''User'', ''Post''})
           (model_fields user) = []"
    and "filter (\<lambda>f. \<exists>h. field_relation f = Some h \<and> fr_model h \<in> {''User'', ''Post''})
           (model_fields post) = [author]"
    and "field_relation author = Some hint" "fr_model hint = ''User''"
  shows "materializedRelations [user, post] = [relationOf post author hint]"
proof -
  have N: "model_name ` set [user, post] = {''User'', ''Post''}"
    using assms(1,2) by simp
  have "fr_model hint \<in> {''User'', ''Post''}" using assms(6) by simp
  then show ?thesis
    using two_models_one_hint [OF N assms(3) assms(4) assms(5)] by blast
qed

text \<open>
  Claim C8. The relations that \<open>extractRelations\<close> derives from a model list are, in
  order, one entry for each field that carries a relation hint whose target is the name
  of a model of the list, and no other entry: the list equals the spec's materialized
  relations, its members are exactly the entries of such fields, its length is the number
  of such fields, and every entry points to an existing model, so a hint to an absent
  model adds nothing. For models \<open>User\<close> and \<open>Post\<close> where \<open>Post.author\<close> is the only
  field with a hint to one of the two models and it points to \<open>User\<close>, the list is the
  single entry from \<open>Post\<close> to \<open>User\<close>.
\<close>

theorem relation_materialization:
  "extractRelations models = materializedRelations models \<and>
   (\<forall>r. r \<in> set (extractRelations models) \<longleftrightarrow>
      (\<exists>m \<in> set models. \<exists>f \<in> set (model_fields m). \<exists>h.
         field_relation f = Some h \<and> fr_model h \<in> model_name ` set models \<and>
         r = relationOf m f h)) \<and>
   length (extractRelations models) =
     (\<Sum>m \<leftarrow> models. length (filter (\<lambda>f. \<exists>h. field_relation f = Some h \<and>
                                        fr_model h \<in> model_name ` set models) (model_fields m))) \<and>
   (\<forall>r \<in> set (extractRelations models). end_model (rel_to r) \<in> model_name ` set models) \<and>
   (model_name user = ''User'' \<and> model_name post = ''Post'' \<and>
    filter (\<lambda>f. \<exists>h. field_relation f = Some h \<and> fr_model h \<in> {''User'', ''Post''})
      (model_fields user) = [] \<and>
    filter (\<lambda>f. \<exists>h. field_relation f = Some h \<and> fr_model h \<in> {''User'', ''Post''})
      (model_fields post) = [author] \<and>
    field_relation author = Some hint \<and> fr_model hint = ''User'' \<longrightarrow>
      extractRelations [user, post] = [relationOf post author hint] \<and>
      end_model (rel_from (relationOf post author hint)) = ''Post'' \<and>
      end_model (rel_to (relationOf post author hint)) = ''User'')"
proof -
  have ex: "model_name user = ''User'' \<and> model_name post = ''Post'' \<and>
    filter (\<lambda>f. \<exists>h. field_relation f = Some h \<and> fr_model h \<in> {''User'', ''Post''})
      (model_fields user) = [] \<and>
    filter (\<lambda>f. \<exists>h. field_relation f = Some h \<and> fr_model h \<in> {''User'', ''Post''})
      (model_fields post) = [author] \<and>
    field_relation author = Some hint \<and> fr_model hint = ''User'' \<longrightarrow>
      extractRelations [user, post] = [relationOf post author hint] \<and>
      end_model (rel_from (relationOf post author hint)) = ''Post'' \<and>
      end_model (rel_to (relationOf post author hint)) = ''User''"
    using user_post_relations [of user post author hint]
    by (simp add: extractRelations_materialized relationOf_def)
  show ?thesis
    using ex materialized_iff [of _ models] materialized_length [of models]
      materialized_target [of _ models]
    by (simp only: extractRelations_materialized) blast
qed

theorem relation_materialization_witness:
  "extractRelations [userModel, postModel] = [relationOf postModel authorField authorHint] \<and>
   end_model (rel_from (relationOf postModel authorField authorHint)) = ''Post'' \<and>
   end_model (rel_to (relationOf postModel authorField authorHint)) = ''User'' \<and>
   field_relation editorField = Some editorHint \<and>
   relationOf postModel editorField editorHint \<notin> set (extractRelations [userModel, postModel])"
proof -
  note T = relation_materialization [of "[userModel, postModel]" userModel postModel
      authorField authorHint]
  have pre: "model_name userModel = ''User'' \<and> model_name postModel = ''Post'' \<and>
    filter (\<lambda>f. \<exists>h. field_relation f = Some h \<and> fr_model h \<in> {''User'', ''Post''})
      (model_fields userModel) = [] \<and>
    filter (\<lambda>f. \<exists>h. field_relation f = Some h \<and> fr_model h \<in> {''User'', ''Post''})
      (model_fields postModel) = [authorField] \<and>
    field_relation authorField = Some authorHint \<and> fr_model authorHint = ''User''"
    by (simp add: userModel_def postModel_def plainModel_def plainField_def authorHint_def
          editorHint_def authorField_def editorField_def)
  from T pre have A:
    "extractRelations [userModel, postModel] = [relationOf postModel authorField authorHint] \<and>
     end_model (rel_from (relationOf postModel authorField authorHint)) = ''Post'' \<and>
     end_model (rel_to (relationOf postModel authorField authorHint)) = ''User''"
    by blast
  from T have B: "\<forall>r \<in> set (extractRelations [userModel, postModel]).
      end_model (rel_to r) \<in> model_name ` set [userModel, postModel]"
    by blast
  have C: "end_model (rel_to (relationOf postModel editorField editorHint))
      \<notin> model_name ` set [userModel, postModel]"
    by (simp add: relationOf_def editorHint_def userModel_def postModel_def plainModel_def)
  have D: "field_relation editorField = Some editorHint"
    by (simp add: editorField_def plainField_def)
  from B C have "relationOf postModel editorField editorHint
      \<notin> set (extractRelations [userModel, postModel])"
    by blast
  with A D show ?thesis by blast
qed

section \<open>Facts about keyed maps\<close>

lemma keyed_empty: "keyed key []"
  by (simp add: keyed_def)

lemma update_member: "kv \<in> set (AList.update k v m) \<Longrightarrow> kv = (k, v) \<or> kv \<in> set m"
  by (induction m) (auto split: if_splits)

lemma keyed_update: "keyed key m \<Longrightarrow> key v = k \<Longrightarrow> keyed key (AList.update k v m)"
  unfolding keyed_def
  by (auto simp: distinct_update dest!: update_member)

lemma keyed_lookup: "keyed key m \<Longrightarrow> map_of m k = Some v \<Longrightarrow> key v = k"
  unfolding keyed_def by (auto dest: map_of_SomeD)

lemma keyed_values:
  "keyed key m \<Longrightarrow>
     filter (\<lambda>v. key v = k) (map snd m) = (case map_of m k of None \<Rightarrow> [] | Some v \<Rightarrow> [v])"
proof (induction m)
  case Nil
  then show ?case by simp
next
  case (Cons kv m)
  from Cons.prems have km: "keyed key m" and kk: "key (snd kv) = fst kv"
    and fresh: "fst kv \<notin> fst ` set m"
    by (auto simp: keyed_def)
  show ?case
  proof (cases "fst kv = k")
    case True
    with fresh have "map_of m k = None" by (simp add: map_of_eq_None_iff)
    with Cons.IH [OF km] True kk show ?thesis by (cases kv) simp
  next
    case False
    with Cons.IH [OF km] kk show ?thesis by (cases kv) simp
  qed
qed

lemma update_fresh: "k \<notin> fst ` set m \<Longrightarrow> AList.update k v m = m @ [(k, v)]"
  by (induction m) auto

section \<open>The file merge\<close>

lemma mergeFiles_LastWins:
  "mergeFiles LastWins fs m = Inr (fold (\<lambda>f. AList.update (path f) f) fs m)"
  by (induction fs arbitrary: m) (simp_all split: option.splits)

lemma mergeFiles_FirstWins:
  "mergeFiles FirstWins fs m =
     Inr (fold (\<lambda>f m. if map_of m (path f) = None then AList.update (path f) f m else m) fs m)"
  by (induction fs arbitrary: m) (simp_all split: option.splits)

lemma keyed_fold_last:
  "keyed path m \<Longrightarrow> keyed path (fold (\<lambda>f. AList.update (path f) f) fs m)"
  by (induction fs arbitrary: m) (simp_all add: keyed_update)

lemma keyed_fold_first:
  "keyed path m \<Longrightarrow>
     keyed path (fold (\<lambda>f m. if map_of m (path f) = None then AList.update (path f) f m else m) fs m)"
  by (induction fs arbitrary: m) (simp_all add: keyed_update)

lemma lookup_fold_last:
  "map_of (fold (\<lambda>f. AList.update (path f) f) fs m) p =
     (if filter (\<lambda>f. path f = p) fs = [] then map_of m p
      else Some (last (filter (\<lambda>f. path f = p) fs)))"
  by (induction fs arbitrary: m) (simp_all add: update_conv')

lemma lookup_fold_first:
  "map_of (fold (\<lambda>f m. if map_of m (path f) = None then AList.update (path f) f m else m) fs m) p =
     (case map_of m p of
        Some e \<Rightarrow> Some e
      | None \<Rightarrow> (if filter (\<lambda>f. path f = p) fs = [] then None
                 else Some (hd (filter (\<lambda>f. path f = p) fs))))"
  by (induction fs arbitrary: m) (auto simp: update_conv' split: option.splits)

lemma mergeFiles_fresh:
  "distinct (map path fs) \<Longrightarrow> path ` set fs \<inter> fst ` set m = {} \<Longrightarrow>
     mergeFiles s fs m = Inr (m @ map (\<lambda>f. (path f, f)) fs)"
proof (induction fs arbitrary: m)
  case Nil
  then show ?case by simp
next
  case (Cons f fs)
  from Cons.prems have fresh: "path f \<notin> fst ` set m" by auto
  then have none: "map_of m (path f) = None" by (simp add: map_of_eq_None_iff)
  have upd: "AList.update (path f) f m = m @ [(path f, f)]"
    using fresh by (rule update_fresh)
  have "path ` set fs \<inter> fst ` set (m @ [(path f, f)]) = {}"
    using Cons.prems by auto
  with Cons.IH [of "m @ [(path f, f)]"] Cons.prems
  have "mergeFiles s fs (m @ [(path f, f)]) = Inr ((m @ [(path f, f)]) @ map (\<lambda>f. (path f, f)) fs)"
    by simp
  with none upd show ?case by simp
qed

text \<open>The files of a successful merge, path by path.\<close>

lemma merge_LastWins_files:
  "\<exists>r. mergeGeneratedCode a b None = Inr r \<and> mergeGeneratedCode a b (Some LastWins) = Inr r \<and>
       dependencies r = mergeDependencies (dependencies a) (dependencies b) \<and>
       metadata r = None \<and>
       (\<forall>p. filter (\<lambda>f. path f = p) (files r) =
            (if filter (\<lambda>f. path f = p) (files a @ files b) = [] then []
             else [last (filter (\<lambda>f. path f = p) (files a @ files b))]))"
proof -
  let ?m = "fold (\<lambda>f. AList.update (path f) f) (files a @ files b) []"
  have k: "keyed path ?m" by (rule keyed_fold_last [OF keyed_empty])
  have "filter (\<lambda>f. path f = p) (map snd ?m) =
            (if filter (\<lambda>f. path f = p) (files a @ files b) = [] then []
             else [last (filter (\<lambda>f. path f = p) (files a @ files b))])" for p
    unfolding keyed_values [OF k] lookup_fold_last by simp
  then show ?thesis
    by (simp add: mergeGeneratedCode_def mergeFiles_LastWins)
qed

lemma merge_FirstWins_files:
  "\<exists>r. mergeGeneratedCode a b (Some FirstWins) = Inr r \<and>
       dependencies r = mergeDependencies (dependencies a) (dependencies b) \<and>
       metadata r = None \<and>
       (\<forall>p. filter (\<lambda>f. path f = p) (files r) =
            (if filter (\<lambda>f. path f = p) (files a @ files b) = [] then []
             else [hd (filter (\<lambda>f. path f = p) (files a @ files b))]))"
proof -
  let ?m = "fold (\<lambda>f m. if map_of m (path f) = None then AList.update (path f) f m else m) (files a @ files b) []"
  have k: "keyed path ?m" by (rule keyed_fold_first [OF keyed_empty])
  have "filter (\<lambda>f. path f = p) (map snd ?m) =
            (if filter (\<lambda>f. path f = p) (files a @ files b) = [] then []
             else [hd (filter (\<lambda>f. path f = p) (files a @ files b))])" for p
    unfolding keyed_values [OF k] lookup_fold_first by simp
  then show ?thesis
    by (simp add: mergeGeneratedCode_def mergeFiles_FirstWins)
qed

lemma in_paths_filter: "p \<in> path ` set fs \<longleftrightarrow> filter (\<lambda>f. path f = p) fs \<noteq> []"
  by (auto simp: filter_empty_conv)

text \<open>
  Claim C4, as amended. The merge of \<open>a\<close> (earlier) and \<open>b\<close> (later) under \<open>last-wins\<close>
  (also the default) and under \<open>first-wins\<close> always returns. When both contain a file
  at path \<open>p\<close>, the result holds exactly one file at \<open>p\<close>: under \<open>last-wins\<close> it is
  \<open>b\<close>'s file at \<open>p\<close> (the last one, should \<open>b\<close> hold several), under \<open>first-wins\<close> it is
  \<open>a\<close>'s (the first one); when each holds exactly one file at \<open>p\<close> these are \<open>b\<close>'s
  file and \<open>a\<close>'s file. A file whose path occurs in only one of the two inputs, and only
  once there, is the one file at its path in the result, unchanged.
\<close>

theorem file_merge_by_path:
  "\<exists>rl rf.
     mergeGeneratedCode a b None = Inr rl \<and> mergeGeneratedCode a b (Some LastWins) = Inr rl \<and>
     mergeGeneratedCode a b (Some FirstWins) = Inr rf \<and>
     (p \<in> path ` set (files a) \<and> p \<in> path ` set (files b) \<longrightarrow>
        filter (\<lambda>f. path f = p) (files rl) = [last (filter (\<lambda>f. path f = p) (files b))] \<and>
        filter (\<lambda>f. path f = p) (files rf) = [hd (filter (\<lambda>f. path f = p) (files a))]) \<and>
     (filter (\<lambda>f. path f = p) (files a) = [fa] \<and> filter (\<lambda>f. path f = p) (files b) = [fb] \<longrightarrow>
        filter (\<lambda>f. path f = p) (files rl) = [fb] \<and>
        filter (\<lambda>f. path f = p) (files rf) = [fa]) \<and>
     (filter (\<lambda>f. path f = p) (files a) = [fa] \<and> p \<notin> path ` set (files b) \<longrightarrow>
        filter (\<lambda>f. path f = p) (files rl) = [fa] \<and>
        filter (\<lambda>f. path f = p) (files rf) = [fa]) \<and>
     (p \<notin> path ` set (files a) \<and> filter (\<lambda>f. path f = p) (files b) = [fb] \<longrightarrow>
        filter (\<lambda>f. path f = p) (files rl) = [fb] \<and>
        filter (\<lambda>f. path f = p) (files rf) = [fb])"
proof -
  obtain rl where rl: "mergeGeneratedCode a b None = Inr rl"
      "mergeGeneratedCode a b (Some LastWins) = Inr rl"
    and fl: "\<And>p. filter (\<lambda>f. path f = p) (files rl) =
            (if filter (\<lambda>f. path f = p) (files a @ files b) = [] then []
             else [last (filter (\<lambda>f. path f = p) (files a @ files b))])"
    using merge_LastWins_files [of a b] by blast
  obtain rf where rf: "mergeGeneratedCode a b (Some FirstWins) = Inr rf"
    and ff: "\<And>p. filter (\<lambda>f. path f = p) (files rf) =
            (if filter (\<lambda>f. path f = p) (files a @ files b) = [] then []
             else [hd (filter (\<lambda>f. path f = p) (files a @ files b))])"
    using merge_FirstWins_files [of a b] by blast
  have both: "p \<in> path ` set (files a) \<and> p \<in> path ` set (files b) \<longrightarrow>
        filter (\<lambda>f. path f = p) (files rl) = [last (filter (\<lambda>f. path f = p) (files b))] \<and>
        filter (\<lambda>f. path f = p) (files rf) = [hd (filter (\<lambda>f. path f = p) (files a))]"
    by (simp add: fl ff in_paths_filter)
  have single: "filter (\<lambda>f. path f = p) (files a) = [fa] \<and> filter (\<lambda>f. path f = p) (files b) = [fb] \<longrightarrow>
        filter (\<lambda>f. path f = p) (files rl) = [fb] \<and>
        filter (\<lambda>f. path f = p) (files rf) = [fa]"
    by (simp add: fl ff)
  have onlya: "filter (\<lambda>f. path f = p) (files a) = [fa] \<and> p \<notin> path ` set (files b) \<longrightarrow>
        filter (\<lambda>f. path f = p) (files rl) = [fa] \<and>
        filter (\<lambda>f. path f = p) (files rf) = [fa]"
    by (simp add: fl ff in_paths_filter)
  have onlyb: "p \<notin> path ` set (files a) \<and> filter (\<lambda>f. path f = p) (files b) = [fb] \<longrightarrow>
        filter (\<lambda>f. path f = p) (files rl) = [fb] \<and>
        filter (\<lambda>f. path f = p) (files rf) = [fb]"
    by (simp add: fl ff in_paths_filter)
  from rl rf both single onlya onlyb show ?thesis by blast
qed

theorem file_merge_by_path_witness:
  "''index.ts'' \<in> path ` set (files oldCode) \<and> ''index.ts'' \<in> path ` set (files newCode) \<and>
   ''a.ts'' \<notin> path ` set (files newCode) \<and> ''b.ts'' \<notin> path ` set (files oldCode) \<and>
   (\<exists>rl rf. mergeGeneratedCode oldCode newCode None = Inr rl \<and>
      mergeGeneratedCode oldCode newCode (Some FirstWins) = Inr rf \<and>
      filter (\<lambda>f. path f = ''index.ts'') (files rl) = [plainFile ''index.ts'' ''new content''] \<and>
      filter (\<lambda>f. path f = ''index.ts'') (files rf) = [plainFile ''index.ts'' ''old content''] \<and>
      filter (\<lambda>f. path f = ''a.ts'') (files rl) = [plainFile ''a.ts'' ''content-a''] \<and>
      filter (\<lambda>f. path f = ''b.ts'') (files rf) = [plainFile ''b.ts'' ''content-b''])"
proof -
  have fa: "filter (\<lambda>f. path f = ''index.ts'') (files oldCode) = [plainFile ''index.ts'' ''old content'']"
    and fb: "filter (\<lambda>f. path f = ''index.ts'') (files newCode) = [plainFile ''index.ts'' ''new content'']"
    and aa: "filter (\<lambda>f. path f = ''a.ts'') (files oldCode) = [plainFile ''a.ts'' ''content-a'']"
    and bb: "filter (\<lambda>f. path f = ''b.ts'') (files newCode) = [plainFile ''b.ts'' ''content-b'']"
    and pa: "''index.ts'' \<in> path ` set (files oldCode)"
    and pb: "''index.ts'' \<in> path ` set (files newCode)"
    and na: "''a.ts'' \<notin> path ` set (files newCode)"
    and nb: "''b.ts'' \<notin> path ` set (files oldCode)"
    by (simp_all add: oldCode_def newCode_def plainCode_def plainFile_def)
  from file_merge_by_path [of oldCode newCode "''index.ts''" "plainFile ''index.ts'' ''old content''"
      "plainFile ''index.ts'' ''new content''"] fa fb
  obtain rl rf where r: "mergeGeneratedCode oldCode newCode None = Inr rl"
      "mergeGeneratedCode oldCode newCode (Some FirstWins) = Inr rf"
      "filter (\<lambda>f. path f = ''index.ts'') (files rl) = [plainFile ''index.ts'' ''new content'']"
      "filter (\<lambda>f. path f = ''index.ts'') (files rf) = [plainFile ''index.ts'' ''old content'']"
    by blast
  from file_merge_by_path [of oldCode newCode "''a.ts''" "plainFile ''a.ts'' ''content-a''"
      "plainFile ''a.ts'' ''content-a''"] aa na r(1,2)
  have a: "filter (\<lambda>f. path f = ''a.ts'') (files rl) = [plainFile ''a.ts'' ''content-a'']"
    by auto
  from file_merge_by_path [of oldCode newCode "''b.ts''" "plainFile ''b.ts'' ''content-b''"
      "plainFile ''b.ts'' ''content-b''"] bb nb r(1,2)
  have b: "filter (\<lambda>f. path f = ''b.ts'') (files rf) = [plainFile ''b.ts'' ''content-b'']"
    by auto
  from r a b pa pb na nb show ?thesis by blast
qed

text \<open>
  As stated the claim fails where one input holds two files at the same path: the
  earlier of the two is not carried through, although its path occurs in one input only.
\<close>

theorem file_merge_by_path_counterexample:
  "plainFile ''index.ts'' ''one'' \<in> set (files twiceIndexCode) \<and>
   ''index.ts'' \<notin> path ` set (files otherCode) \<and>
   mergeGeneratedCode twiceIndexCode otherCode None
     = Inr (plainCode [plainFile ''index.ts'' ''two'', plainFile ''other.ts'' ''x''] []) \<and>
   plainFile ''index.ts'' ''one''
     \<notin> set (files (plainCode [plainFile ''index.ts'' ''two'', plainFile ''other.ts'' ''x''] []))"
  by (simp add: mergeGeneratedCode_def mergeDependencies_def twiceIndexCode_def otherCode_def
        plainCode_def plainFile_def)

section \<open>The order on versions\<close>

lemma numGreater_trans: "numGreater a b \<Longrightarrow> numGreater b c \<Longrightarrow> numGreater a c"
  by (cases a; cases b; cases c) simp_all

lemma numGreater_cases: "a \<noteq> NaN \<Longrightarrow> b \<noteq> NaN \<Longrightarrow> numGreater a b \<or> a = b \<or> numGreater b a"
  by (cases a; cases b) auto

lemma numGreater_irrefl: "\<not> numGreater a a"
  by (cases a) simp_all

lemma orZero_notNaN: "orZero x \<noteq> NaN"
  by (simp add: orZero_def)

lemma partOr0_notNaN: "\<forall>x \<in> set parts. x \<noteq> NaN \<Longrightarrow> partOr0 parts i \<noteq> NaN"
  by (simp add: partOr0_def)

lemma parseSemver_notNaN:
  "major (parseSemver v) \<noteq> NaN" "minor (parseSemver v) \<noteq> NaN" "patch (parseSemver v) \<noteq> NaN"
  by (simp_all add: parseSemver_def Let_def partOr0_notNaN orZero_notNaN)

lemma numNotEqual_plain: "a \<noteq> NaN \<Longrightarrow> numNotEqual a b \<longleftrightarrow> a \<noteq> b"
  by (simp add: numNotEqual_def)

lemma compareSemver_outranks:
  "compareSemver v w = (if outranks v w then 1 else if outranks w v then - 1 else 0)"
proof -
  let ?a = "parseSemver v" and ?b = "parseSemver w"
  note n = parseSemver_notNaN [of v] parseSemver_notNaN [of w]
  have ne: "numNotEqual (major ?a) (major ?b) \<longleftrightarrow> major ?a \<noteq> major ?b"
    "numNotEqual (minor ?a) (minor ?b) \<longleftrightarrow> minor ?a \<noteq> minor ?b"
    "numNotEqual (patch ?a) (patch ?b) \<longleftrightarrow> patch ?a \<noteq> patch ?b"
    using n by (simp_all add: numNotEqual_plain)
  have c: "numGreater (major ?a) (major ?b) \<or> major ?a = major ?b \<or> numGreater (major ?b) (major ?a)"
    "numGreater (minor ?a) (minor ?b) \<or> minor ?a = minor ?b \<or> numGreater (minor ?b) (minor ?a)"
    "numGreater (patch ?a) (patch ?b) \<or> patch ?a = patch ?b \<or> numGreater (patch ?b) (patch ?a)"
    using n by (simp_all add: numGreater_cases)
  have x: "\<not> (numGreater (major ?a) (major ?b) \<and> numGreater (major ?b) (major ?a))"
    "\<not> (numGreater (minor ?a) (minor ?b) \<and> numGreater (minor ?b) (minor ?a))"
    "\<not> (numGreater (patch ?a) (patch ?b) \<and> numGreater (patch ?b) (patch ?a))"
    using numGreater_trans numGreater_irrefl by blast+
  have i: "\<not> numGreater (major ?a) (major ?a)" "\<not> numGreater (minor ?a) (minor ?a)"
    "\<not> numGreater (patch ?a) (patch ?a)" "\<not> numGreater (major ?b) (major ?b)"
    "\<not> numGreater (minor ?b) (minor ?b)" "\<not> numGreater (patch ?b) (patch ?b)"
    by (rule numGreater_irrefl)+
  show ?thesis
    unfolding compareSemver_def outranks_def tupleLess_def tupleEq_def isPrerelease_def Let_def ne
    using c x i by (auto split: if_splits)
qed

lemma compareSemver_pos: "compareSemver v w > 0 \<longleftrightarrow> outranks v w"
  by (simp add: compareSemver_outranks)









section \<open>Reading a well-formed version string\<close>

text \<open>
  \<open>parseInt\<close> on some inputs: plain digits, trailing text, white space of one, two and
  three bytes, a sign, hexadecimal, no digit, and integers that are not doubles (a tie
  goes to the even significand).
\<close>

lemma parseInt_examples:
  "parseInt ''42'' = Finite 42"
  "parseInt ''12px'' = Finite 12"
  "parseInt [CHR 0x20, CHR 0x09, CHR ''7''] = Finite 7"
  "parseInt [CHR 0xC2, CHR 0xA0, CHR ''2''] = Finite 2"
  "parseInt [CHR 0xA0, CHR ''2''] = Finite 2"
  "parseInt [CHR 0xEF, CHR 0xBB, CHR 0xBF, CHR 0xE2, CHR 0x80, CHR 0xA8, CHR ''3''] = Finite 3"
  "parseInt [CHR 0xC3, CHR 0xA0, CHR ''2''] = NaN"
  "parseInt ''+5'' = Finite 5"
  "parseInt ''-0x1fz'' = Finite (- 31)"
  "parseInt ''x1'' = NaN"
  "parseInt [] = NaN"
  "parseInt ''9007199254740992'' = Finite 9007199254740992"
  "parseInt ''9007199254740993'' = Finite 9007199254740992"
  "parseInt ''9007199254740995'' = Finite 9007199254740996"
  "parseInt ''18014398509481985'' = Finite 18014398509481984"
  "parseInt ''18014398509481987'' = Finite 18014398509481988"
  by code_simp+

lemma parseSemver_examples:
  "parseSemver ''>=1.2.3-beta-4''
     = \<lparr> major = Finite 1, minor = Finite 2, patch = Finite 3, prerelease = Some ''beta'' \<rparr>"
  "parseSemver ''1.2'' = \<lparr> major = Finite 1, minor = Finite 2, patch = Finite 0, prerelease = None \<rparr>"
  "parseSemver ''latest''
     = \<lparr> major = Finite 0, minor = Finite 0, patch = Finite 0, prerelease = None \<rparr>"
  "parseSemver ''1.0.0--rc''
     = \<lparr> major = Finite 1, minor = Finite 0, patch = Finite 0, prerelease = Some [] \<rparr>"
  "compareSemver ([CHR 0xC2, CHR 0xA0] @ ''2.0.0'') ''1.0.0'' = 1"
  "compareSemver ''1.0.0'' ''^1.0.0-beta.1'' = 1"
  "compareSemver ''~1.0.0-beta.1'' ''1.0.0'' = - 1"
  by code_simp+





























section \<open>The dependency merge\<close>

lemma step_absent:
  "map_of m (name dep) = None \<Longrightarrow>
     mergeDependencies_step dep m = AList.update (name dep) dep m"
  by (simp add: mergeDependencies_step_def)

lemma step_present:
  "map_of m (name dep) = Some existing \<Longrightarrow>
     mergeDependencies_step dep m =
       (if compareSemver (version dep) (version existing) > 0 \<or> dev existing = Some False
           \<or> dev dep = Some False
        then AList.update (name dep) (resolveDependency existing dep) m else m)"
  by (auto simp: mergeDependencies_step_def resolveDependency_def Let_def update_conv')

lemma step_lookup:
  "map_of (mergeDependencies_step dep m) n =
     (if n = name dep
      then Some (case map_of m n of None \<Rightarrow> dep | Some e \<Rightarrow> resolveDependency e dep)
      else map_of m n)"
proof (cases "map_of m (name dep)")
  case None
  then show ?thesis by (simp add: step_absent update_conv')
next
  case (Some existing)
  then show ?thesis
    by (auto simp: step_present update_conv' resolveDependency_def Let_def)
qed

lemma name_resolve: "name e = name d \<Longrightarrow> name (resolveDependency e d) = name d"
  by (simp add: resolveDependency_def Let_def)

lemma step_keyed: "keyed name m \<Longrightarrow> keyed name (mergeDependencies_step dep m)"
proof (cases "map_of m (name dep)")
  case None
  assume "keyed name m"
  with None show ?thesis by (simp add: step_absent keyed_update)
next
  case (Some existing)
  assume k: "keyed name m"
  from k Some have "name existing = name dep" by (rule keyed_lookup)
  then have "name (resolveDependency existing dep) = name dep" by (rule name_resolve)
  with k Some show ?thesis by (simp add: step_present keyed_update)
qed

lemma fold_keyed: "keyed name m \<Longrightarrow> keyed name (fold mergeDependencies_step ds m)"
  by (induction ds arbitrary: m) (simp_all add: step_keyed)

lemma fold_lookup:
  "map_of (fold mergeDependencies_step ds m) n =
     foldl (\<lambda>acc d. Some (case acc of None \<Rightarrow> d | Some e \<Rightarrow> resolveDependency e d))
       (map_of m n) (filter (\<lambda>d. name d = n) ds)"
  by (induction ds arbitrary: m) (simp_all add: step_lookup)

lemma foldl_Some:
  "foldl (\<lambda>acc d. Some (case acc of None \<Rightarrow> d | Some e \<Rightarrow> resolveDependency e d)) (Some x) xs
     = Some (foldl resolveDependency x xs)"
  by (induction xs arbitrary: x) simp_all

lemma merged_entry:
  assumes "filter (\<lambda>d. name d = n) (a @ b) = x # xs"
  shows "filter (\<lambda>d. name d = n) (mergeDependencies a b) = [foldl resolveDependency x xs]"
proof -
  let ?m = "fold mergeDependencies_step (a @ b) []"
  have k: "keyed name ?m" by (rule fold_keyed [OF keyed_empty])
  have "map_of ?m n = Some (foldl resolveDependency x xs)"
    unfolding fold_lookup assms by (simp add: foldl_Some)
  then show ?thesis
    unfolding mergeDependencies_def keyed_values [OF k] by simp
qed

lemma merged_absent:
  assumes "filter (\<lambda>d. name d = n) (a @ b) = []"
  shows "filter (\<lambda>d. name d = n) (mergeDependencies a b) = []"
proof -
  let ?m = "fold mergeDependencies_step (a @ b) []"
  have k: "keyed name ?m" by (rule fold_keyed [OF keyed_empty])
  have "map_of ?m n = None"
    unfolding fold_lookup assms by simp
  then show ?thesis
    unfolding mergeDependencies_def keyed_values [OF k] by simp
qed

lemma fold_fresh:
  "distinct (map name ds) \<Longrightarrow> name ` set ds \<inter> fst ` set m = {} \<Longrightarrow>
     fold mergeDependencies_step ds m = m @ map (\<lambda>d. (name d, d)) ds"
proof (induction ds arbitrary: m)
  case Nil
  then show ?case by simp
next
  case (Cons d ds)
  from Cons.prems have fresh: "name d \<notin> fst ` set m" by auto
  then have none: "map_of m (name d) = None" by (simp add: map_of_eq_None_iff)
  have upd: "mergeDependencies_step d m = m @ [(name d, d)]"
    using fresh none by (simp add: step_absent update_fresh)
  have "name ` set ds \<inter> fst ` set (m @ [(name d, d)]) = {}"
    using Cons.prems by auto
  with Cons.IH [of "m @ [(name d, d)]"] Cons.prems upd show ?case by simp
qed

lemma mergeDependencies_distinct:
  "distinct (map name a) \<Longrightarrow> mergeDependencies a [] = a"
  by (simp add: mergeDependencies_def fold_fresh comp_def)

text \<open>What the fold over the entries of one name keeps.\<close>

lemma dev_resolve:
  "dev e = Some False \<or> dev d = Some False \<Longrightarrow> dev (resolveDependency e d) = Some False"
  by (auto simp: resolveDependency_def Let_def)

lemma dev_foldl:
  "dev x = Some False \<or> (\<exists>d \<in> set xs. dev d = Some False) \<Longrightarrow>
     dev (foldl resolveDependency x xs) = Some False"
proof (induction xs arbitrary: x)
  case Nil
  then show ?case by simp
next
  case (Cons d xs)
  show ?case
  proof (cases "dev x = Some False \<or> dev d = Some False")
    case True
    then have "dev (resolveDependency x d) = Some False" by (rule dev_resolve)
    with Cons.IH [of "resolveDependency x d"] show ?thesis by simp
  next
    case False
    with Cons.prems have "\<exists>d \<in> set xs. dev d = Some False" by auto
    with Cons.IH [of "resolveDependency x d"] show ?thesis by simp
  qed
qed


















lemma merged_dev:
  assumes "d \<in> set (a @ b)" "dev d = Some False"
  shows "\<exists>merged. filter (\<lambda>e. name e = name d) (mergeDependencies a b) = [merged] \<and>
           dev merged = Some False"
proof -
  from assms(1) have mem: "d \<in> set (filter (\<lambda>e. name e = name d) (a @ b))" by simp
  then have "filter (\<lambda>e. name e = name d) (a @ b) \<noteq> []" by (metis empty_iff list.set(1))
  then obtain x xs where xs: "filter (\<lambda>e. name e = name d) (a @ b) = x # xs"
    by (meson neq_Nil_conv)
  from mem have "d \<in> set (x # xs)" unfolding xs .
  then have "d = x \<or> d \<in> set xs" by simp
  with assms(2) have "dev x = Some False \<or> (\<exists>e \<in> set xs. dev e = Some False)" by blast
  then have "dev (foldl resolveDependency x xs) = Some False" by (rule dev_foldl)
  with merged_entry [OF xs] show ?thesis by blast
qed

lemma two_entries:
  assumes "name x = name y"
  shows "mergeDependencies [x] [y] = [resolveDependency x y]"
proof -
  have "map_of [(name y, x)] (name y) = Some x" by simp
  then show ?thesis
    unfolding mergeDependencies_def
    by (simp add: step_absent step_present assms resolveDependency_def Let_def)
qed

text \<open>
  Claim C7. If any entry of the two lists has \<open>dev === false\<close>, the merged entry of its
  package name has \<open>dev\<close> equal to \<open>false\<close>. For two entries of the same name of which
  either has \<open>dev === false\<close>, the merge is the winner of the version comparison with
  \<open>dev\<close> set to \<open>false\<close>, whichever of the two wins; \<open>dev: true\<close> or an absent \<open>dev\<close> on
  the other side does not undo it. Merging \<open>dev: true\<close> with \<open>dev: false\<close> for the same
  package yields \<open>dev: false\<close>.
\<close>

theorem dev_false_precedence:
  "(d \<in> set (a @ b) \<and> dev d = Some False \<longrightarrow>
      (\<exists>merged. filter (\<lambda>e. name e = name d) (mergeDependencies a b) = [merged] \<and>
         dev merged = Some False)) \<and>
   (name x = name y \<and> (dev x = Some False \<or> dev y = Some False) \<longrightarrow>
      mergeDependencies [x] [y] =
        [(if outranks (version y) (version x) then y else x)\<lparr>dev := Some False\<rparr>]) \<and>
   mergeDependencies [plainDependency ''pkg'' ''^1.0.0'' (Some True)]
       [plainDependency ''pkg'' ''^1.0.0'' (Some False)]
     = [plainDependency ''pkg'' ''^1.0.0'' (Some False)] \<and>
   mergeDependencies [plainDependency ''pkg'' ''^2.0.0'' (Some True)]
       [plainDependency ''pkg'' ''^1.0.0'' (Some False)]
     = [plainDependency ''pkg'' ''^2.0.0'' (Some False)] \<and>
   mergeDependencies [plainDependency ''pkg'' ''^1.0.0'' (Some False)]
       [plainDependency ''pkg'' ''^2.0.0'' None]
     = [plainDependency ''pkg'' ''^2.0.0'' (Some False)]"
proof -
  have g: "d \<in> set (a @ b) \<and> dev d = Some False \<longrightarrow>
      (\<exists>merged. filter (\<lambda>e. name e = name d) (mergeDependencies a b) = [merged] \<and>
         dev merged = Some False)"
    using merged_dev [of d a b] by blast
  have t: "name x = name y \<and> (dev x = Some False \<or> dev y = Some False) \<longrightarrow>
      mergeDependencies [x] [y] =
        [(if outranks (version y) (version x) then y else x)\<lparr>dev := Some False\<rparr>]"
    by (auto simp: two_entries resolveDependency_def Let_def compareSemver_pos)
  have e1: "mergeDependencies [plainDependency ''pkg'' ''^1.0.0'' (Some True)]
       [plainDependency ''pkg'' ''^1.0.0'' (Some False)]
     = [plainDependency ''pkg'' ''^1.0.0'' (Some False)]"
    by code_simp
  have e2: "mergeDependencies [plainDependency ''pkg'' ''^2.0.0'' (Some True)]
       [plainDependency ''pkg'' ''^1.0.0'' (Some False)]
     = [plainDependency ''pkg'' ''^2.0.0'' (Some False)]"
    by code_simp
  have e3: "mergeDependencies [plainDependency ''pkg'' ''^1.0.0'' (Some False)]
       [plainDependency ''pkg'' ''^2.0.0'' None]
     = [plainDependency ''pkg'' ''^2.0.0'' (Some False)]"
    by code_simp
  from g t e1 e2 e3 show ?thesis by blast
qed

theorem dev_false_precedence_witness:
  "plainDependency ''pkg'' ''^1.0.0'' (Some False)
     \<in> set ([plainDependency ''pkg'' ''^2.0.0'' (Some True)] @ [plainDependency ''pkg'' ''^1.0.0'' (Some False)]) \<and>
   dev (plainDependency ''pkg'' ''^1.0.0'' (Some False)) = Some False \<and>
   (\<exists>merged. filter (\<lambda>e. name e = name (plainDependency ''pkg'' ''^1.0.0'' (Some False)))
        (mergeDependencies [plainDependency ''pkg'' ''^2.0.0'' (Some True)]
           [plainDependency ''pkg'' ''^1.0.0'' (Some False)]) = [merged] \<and>
      dev merged = Some False)"
proof -
  let ?x = "plainDependency ''pkg'' ''^2.0.0'' (Some True)"
  let ?d = "plainDependency ''pkg'' ''^1.0.0'' (Some False)"
  have h: "?d \<in> set ([?x] @ [?d])" "dev ?d = Some False"
    by (simp_all add: plainDependency_def)
  with dev_false_precedence [where d = ?d and a = "[?x]" and b = "[?d]"] show ?thesis
    by blast
qed

text \<open>
  Claim C2, as amended. For every generated code \<open>a\<close> whose file paths are pairwise
  distinct and whose dependency names are pairwise distinct, merging \<open>a\<close> with an empty
  generated code, under the default, \<open>last-wins\<close> and \<open>first-wins\<close>, returns the files
  of \<open>a\<close> in the same order and the dependencies of \<open>a\<close> in the same order; the result
  carries no \<open>metadata\<close>, so it is \<open>a\<close> itself when \<open>a\<close> has none.
\<close>

theorem merge_with_empty:
  "distinct (map path (files a)) \<and> distinct (map name (dependencies a)) \<and>
   files e = [] \<and> dependencies e = [] \<longrightarrow>
     mergeGeneratedCode a e None = Inr (a\<lparr>metadata := None\<rparr>) \<and>
     mergeGeneratedCode a e (Some LastWins) = Inr (a\<lparr>metadata := None\<rparr>) \<and>
     mergeGeneratedCode a e (Some FirstWins) = Inr (a\<lparr>metadata := None\<rparr>) \<and>
     (metadata a = None \<longrightarrow>
        mergeGeneratedCode a e None = Inr a \<and>
        mergeGeneratedCode a e (Some LastWins) = Inr a \<and>
        mergeGeneratedCode a e (Some FirstWins) = Inr a)"
proof (intro impI, elim conjE)
  assume df: "distinct (map path (files a))" and dd: "distinct (map name (dependencies a))"
    and e: "files e = []" "dependencies e = []"
  have f: "mergeFiles s (files a @ files e) [] = Inr (map (\<lambda>f. (path f, f)) (files a))" for s
    using mergeFiles_fresh [of "files a" "[]" s] df e by simp
  have d: "mergeDependencies (dependencies a) (dependencies e) = dependencies a"
    using mergeDependencies_distinct [OF dd] e by simp
  have r: "mergeGeneratedCode a e s = Inr (a\<lparr>metadata := None\<rparr>)" for s
    by (simp add: mergeGeneratedCode_def f d comp_def)
  have "metadata a = None \<longrightarrow> a\<lparr>metadata := None\<rparr> = a" by auto
  with r show "mergeGeneratedCode a e None = Inr (a\<lparr>metadata := None\<rparr>) \<and>
     mergeGeneratedCode a e (Some LastWins) = Inr (a\<lparr>metadata := None\<rparr>) \<and>
     mergeGeneratedCode a e (Some FirstWins) = Inr (a\<lparr>metadata := None\<rparr>) \<and>
     (metadata a = None \<longrightarrow>
        mergeGeneratedCode a e None = Inr a \<and>
        mergeGeneratedCode a e (Some LastWins) = Inr a \<and>
        mergeGeneratedCode a e (Some FirstWins) = Inr a)"
    by simp
qed

theorem merge_with_empty_witness:
  "distinct (map path (files expressCode)) \<and> distinct (map name (dependencies expressCode)) \<and>
   files emptyCode = [] \<and> dependencies emptyCode = [] \<and> metadata expressCode = None \<and>
   mergeGeneratedCode expressCode emptyCode None = Inr expressCode \<and>
   mergeGeneratedCode expressCode emptyCode (Some LastWins) = Inr expressCode \<and>
   mergeGeneratedCode expressCode emptyCode (Some FirstWins) = Inr expressCode"
proof -
  have h: "distinct (map path (files expressCode))" "distinct (map name (dependencies expressCode))"
    "files emptyCode = []" "dependencies emptyCode = []" "metadata expressCode = None"
    by (simp_all add: expressCode_def emptyCode_def plainCode_def)
  with merge_with_empty [of expressCode emptyCode] show ?thesis by blast
qed

text \<open>
  As stated the claim fails on three kinds of input: the merge drops the \<open>metadata\<close> of
  \<open>a\<close>, it collapses two files of \<open>a\<close> at one path into one, and it collapses two
  dependencies of \<open>a\<close> of one name into one.
\<close>

theorem merge_with_empty_counterexample:
  "mergeGeneratedCode metadataCode emptyCode None = Inr (metadataCode\<lparr>metadata := None\<rparr>) \<and>
   mergeGeneratedCode metadataCode emptyCode (Some FirstWins) = Inr (metadataCode\<lparr>metadata := None\<rparr>) \<and>
   metadataCode\<lparr>metadata := None\<rparr> \<noteq> metadataCode \<and>
   mergeGeneratedCode twiceIndexCode emptyCode None = Inr (plainCode [plainFile ''index.ts'' ''two''] []) \<and>
   mergeGeneratedCode twiceIndexCode emptyCode (Some FirstWins)
     = Inr (plainCode [plainFile ''index.ts'' ''one''] []) \<and>
   plainCode [plainFile ''index.ts'' ''two''] [] \<noteq> twiceIndexCode \<and>
   plainCode [plainFile ''index.ts'' ''one''] [] \<noteq> twiceIndexCode \<and>
   mergeGeneratedCode twiceExpressCode emptyCode None
     = Inr (plainCode [] [plainDependency ''express'' ''^5.0.0'' None]) \<and>
   plainCode [] [plainDependency ''express'' ''^5.0.0'' None] \<noteq> twiceExpressCode"
  by code_simp

section \<open>The error strategy\<close>

lemma mergeFiles_Error:
  "mergeFiles ErrorStrategy fs m =
     (case firstDuplicate (map fst m) (map path fs) of
        Some q \<Rightarrow> Inl (Error (conflictMessage q))
      | None \<Rightarrow> Inr (m @ map (\<lambda>f. (path f, f)) fs))"
proof (induction fs arbitrary: m)
  case Nil
  then show ?case by simp
next
  case (Cons f fs)
  show ?case
  proof (cases "map_of m (path f)")
    case None
    then have fresh: "path f \<notin> fst ` set m" by (simp add: map_of_eq_None_iff)
    then have upd: "AList.update (path f) f m = m @ [(path f, f)]" by (rule update_fresh)
    from fresh have notin: "path f \<notin> set (map fst m)" by simp
    show ?thesis
      using None upd notin Cons.IH [of "m @ [(path f, f)]"]
      by (simp split: option.splits)
  next
    case (Some existing)
    then have "path f \<in> fst ` set m" by (metis map_of_eq_None_iff option.distinct(1))
    then have "path f \<in> set (map fst m)" by simp
    with Some show ?thesis by simp
  qed
qed

lemma firstDuplicate_None:
  "firstDuplicate seen ps = None \<longleftrightarrow> distinct ps \<and> set ps \<inter> set seen = {}"
  by (induction ps arbitrary: seen) auto

lemma firstDuplicate_Some:
  "firstDuplicate seen ps = Some q \<Longrightarrow>
     \<exists>pre post. ps = pre @ q # post \<and> distinct pre \<and> set pre \<inter> set seen = {} \<and>
       (q \<in> set seen \<or> q \<in> set pre)"
proof (induction ps arbitrary: seen)
  case Nil
  then show ?case by simp
next
  case (Cons p ps)
  show ?case
  proof (cases "p \<in> set seen")
    case True
    with Cons.prems have "q = p" by simp
    with True have "p # ps = [] @ q # ps \<and> distinct [] \<and> set [] \<inter> set seen = {} \<and>
       (q \<in> set seen \<or> q \<in> set [])" by simp
    then show ?thesis by blast
  next
    case False
    with Cons.prems have "firstDuplicate (seen @ [p]) ps = Some q" by simp
    from Cons.IH [OF this] obtain pre post where
      h: "ps = pre @ q # post" "distinct pre" "set pre \<inter> set (seen @ [p]) = {}"
         "q \<in> set (seen @ [p]) \<or> q \<in> set pre"
      by blast
    have "p # ps = (p # pre) @ q # post" using h(1) by simp
    moreover have "distinct (p # pre)" using h(2,3) by auto
    moreover have "set (p # pre) \<inter> set seen = {}" using h(3) False by auto
    moreover have "q \<in> set seen \<or> q \<in> set (p # pre)" using h(4) by auto
    ultimately show ?thesis by blast
  qed
qed

lemma count_twice: "q \<in> set pre \<Longrightarrow> 1 < count_list (pre @ q # post) q"
  by (induction pre) auto

lemma conflict_names_path: "sublist q (conflictMessage q)"
  unfolding conflictMessage_def by (rule sublist_appendI)

lemma merge_Error_conflict:
  assumes "p \<in> path ` set (files a)" "p \<in> path ` set (files b)"
  shows "\<exists>q pre post.
      mergeGeneratedCode a b (Some ErrorStrategy) = Inl (Error (conflictMessage q)) \<and>
      sublist q (conflictMessage q) \<and>
      map path (files a @ files b) = pre @ q # post \<and> distinct pre \<and> q \<in> set pre \<and>
      ((\<forall>r. 1 < count_list (map path (files a @ files b)) r \<longrightarrow> r = p) \<longrightarrow> q = p)"
proof -
  let ?ps = "map path (files a @ files b)"
  from assms have "\<not> distinct ?ps" by auto
  then have "firstDuplicate [] ?ps \<noteq> None" by (simp add: firstDuplicate_None)
  then obtain q where q: "firstDuplicate [] ?ps = Some q" by blast
  from firstDuplicate_Some [OF q] obtain pre post where
    h: "?ps = pre @ q # post" "distinct pre" "q \<in> set pre"
    by auto
  have thrown: "mergeGeneratedCode a b (Some ErrorStrategy) = Inl (Error (conflictMessage q))"
    using q by (simp add: mergeGeneratedCode_def mergeFiles_Error)
  have "1 < count_list ?ps q" unfolding h(1) using h(3) by (rule count_twice)
  then have only: "(\<forall>r. 1 < count_list ?ps r \<longrightarrow> r = p) \<longrightarrow> q = p" by blast
  from thrown conflict_names_path [of q] h only show ?thesis by blast
qed

lemma index_not_named:
  "\<not> sublist ''index.ts'' ''File conflict: x.ts is generated by multiple plugins''"
  by (simp add: sublist_Cons_right)

text \<open>
  Claim C5, as amended. When \<open>a\<close> and \<open>b\<close> both contain a file at path \<open>p\<close>, merging
  under the \<open>error\<close> strategy throws \<open>File conflict: q is generated by multiple plugins\<close>,
  so the message contains \<open>q\<close>, where \<open>q\<close> is the path of the first file, in \<open>a\<close> then
  \<open>b\<close> order, whose path occurred before it; \<open>q\<close> is \<open>p\<close> whenever \<open>p\<close> is the only path
  that occurs more than once in the two lists together. Under the default, \<open>last-wins\<close>
  and \<open>first-wins\<close> the merge returns a result: no error is raised, and the function
  has no other output through which a warning could pass.
\<close>

theorem error_strategy_conflict:
  "p \<in> path ` set (files a) \<and> p \<in> path ` set (files b) \<longrightarrow>
     (\<exists>q pre post.
        mergeGeneratedCode a b (Some ErrorStrategy) = Inl (Error (conflictMessage q)) \<and>
        sublist q (conflictMessage q) \<and>
        map path (files a @ files b) = pre @ q # post \<and> distinct pre \<and> q \<in> set pre \<and>
        ((\<forall>r. 1 < count_list (map path (files a @ files b)) r \<longrightarrow> r = p) \<longrightarrow> q = p)) \<and>
     (\<exists>r. mergeGeneratedCode a b None = Inr r) \<and>
     (\<exists>r. mergeGeneratedCode a b (Some LastWins) = Inr r) \<and>
     (\<exists>r. mergeGeneratedCode a b (Some FirstWins) = Inr r)"
  using merge_Error_conflict [of p a b] merge_LastWins_files [of a b]
    merge_FirstWins_files [of a b]
  by blast

theorem error_strategy_conflict_witness:
  "''index.ts'' \<in> path ` set (files oldCode) \<and> ''index.ts'' \<in> path ` set (files newCode) \<and>
   mergeGeneratedCode oldCode newCode (Some ErrorStrategy)
     = Inl (Error ''File conflict: index.ts is generated by multiple plugins'') \<and>
   sublist ''index.ts'' ''File conflict: index.ts is generated by multiple plugins'' \<and>
   (\<exists>r. mergeGeneratedCode oldCode newCode None = Inr r) \<and>
   (\<exists>r. mergeGeneratedCode oldCode newCode (Some FirstWins) = Inr r)"
proof -
  have pa: "''index.ts'' \<in> path ` set (files oldCode)"
    and pb: "''index.ts'' \<in> path ` set (files newCode)"
    by (simp_all add: oldCode_def newCode_def plainCode_def plainFile_def)
  have only: "\<forall>r. 1 < count_list (map path (files oldCode @ files newCode)) r \<longrightarrow> r = ''index.ts''"
    by (simp add: oldCode_def newCode_def plainCode_def plainFile_def)
  from error_strategy_conflict [of "''index.ts''" oldCode newCode] pa pb
  obtain q where q: "mergeGeneratedCode oldCode newCode (Some ErrorStrategy)
        = Inl (Error (conflictMessage q))" "sublist q (conflictMessage q)"
      "(\<forall>r. 1 < count_list (map path (files oldCode @ files newCode)) r \<longrightarrow> r = ''index.ts'')
         \<longrightarrow> q = ''index.ts''"
    and ok: "\<exists>r. mergeGeneratedCode oldCode newCode None = Inr r"
      "\<exists>r. mergeGeneratedCode oldCode newCode (Some FirstWins) = Inr r"
    by blast
  from q(3) only have "q = ''index.ts''" by blast
  with q(1,2) ok pa pb show ?thesis by (simp add: conflictMessage_def)
qed

text \<open>
  As stated the claim fails when a second path collides first: both inputs contain
  \<open>index.ts\<close>, and the message names \<open>x.ts\<close> only.
\<close>

theorem error_strategy_conflict_counterexample:
  "''index.ts'' \<in> path ` set (files sharedTwoFirst) \<and>
   ''index.ts'' \<in> path ` set (files sharedTwoSecond) \<and>
   mergeGeneratedCode sharedTwoFirst sharedTwoSecond (Some ErrorStrategy)
     = Inl (Error ''File conflict: x.ts is generated by multiple plugins'') \<and>
   \<not> sublist ''index.ts'' ''File conflict: x.ts is generated by multiple plugins''"
proof -
  have "mergeGeneratedCode sharedTwoFirst sharedTwoSecond (Some ErrorStrategy)
     = Inl (Error ''File conflict: x.ts is generated by multiple plugins'')"
    by (simp add: mergeGeneratedCode_def sharedTwoFirst_def sharedTwoSecond_def plainCode_def
          plainFile_def conflictMessage_def)
  then show ?thesis
    using index_not_named
    by (simp add: sharedTwoFirst_def sharedTwoSecond_def plainCode_def plainFile_def)
qed

section \<open>Calls made by the steps of a run\<close>

lemma bind_run_Inr: "m = (t, Inr x) \<Longrightarrow> bind_run m f = (t @ fst (f x), snd (f x))"
  by (simp add: bind_run_def split: prod.splits)

lemma bind_run_Inl: "m = (t, Inl e) \<Longrightarrow> bind_run m f = (t, Inl e)"
  by (simp add: bind_run_def)

lemma bind_run_calls:
  "fst (bind_run m f) = fst m @ (case snd m of Inl e \<Rightarrow> [] | Inr x \<Rightarrow> fst (f x))"
  by (cases m) (auto simp: bind_run_def split: sum.splits prod.splits)

lemma parse_no_adapt: "filter isAdapterCall (fst (parse this env input)) = []"
  by (simp add: parse_def bind_run_calls split: option.splits sum.splits)

lemma runGenerators_no_adapt:
  "filter isAdapterCall (fst (runGenerators schema options gens code)) = []"
proof (induction gens arbitrary: code)
  case Nil
  then show ?case by simp
next
  case (Cons gen gens)
  show ?case
    using Cons.IH by (auto split: sum.splits prod.splits) (metis fst_conv)
qed

lemma runAuth_no_adapt:
  "filter isAdapterCall (fst (runAuth schema options aus code)) = []"
proof (induction aus arbitrary: code)
  case Nil
  then show ?case by simp
next
  case (Cons au aus)
  show ?case
    using Cons.IH by (auto split: sum.splits prod.splits) (metis fst_conv)
qed

lemma runDatabase_no_adapt:
  "filter isAdapterCall (fst (runDatabase this schema options code)) = []"
  by (simp add: runDatabase_def split: option.splits)

lemma runDeploy_no_adapt:
  "filter isAdapterCall (fst (runDeploy options deps code)) = []"
proof (induction deps arbitrary: code)
  case Nil
  then show ?case by simp
next
  case (Cons dep deps)
  show ?case
    using Cons.IH by (auto split: sum.splits prod.splits) (metis fst_conv)
qed

lemma finishGenerate_no_adapt:
  "filter isAdapterCall (fst (finishGenerate this env options code)) = []"
  by (simp add: finishGenerate_def Let_def)

lemma afterAdapter_no_adapt:
  "filter isAdapterCall (fst (afterAdapter this env schema options code)) = []"
  unfolding afterAdapter_def
  by (simp add: bind_run_calls runAuth_no_adapt runDatabase_no_adapt runDeploy_no_adapt
        finishGenerate_no_adapt split: sum.splits)

lemma applyAdapter_Some:
  "selectedAdapter this = Some ad \<Longrightarrow>
     applyAdapter this options code = ([AdapterCalled (ap_name ad) code], ap_adapt ad code options)"
  by (simp add: applyAdapter_def)

lemma applyAdapter_None:
  "selectedAdapter this = None \<Longrightarrow> applyAdapter this options code = ([], Inr code)"
  by (simp add: applyAdapter_def)

lemma applyAdapter_calls:
  "length (filter isAdapterCall (fst (applyAdapter this options code))) \<le> 1"
  by (simp add: applyAdapter_def split: option.splits)

lemma generate_adapt_at_most_once:
  "length (filter isAdapterCall (fst (generate this env options))) \<le> 1"
  unfolding generate_def
  using applyAdapter_calls
  by (simp add: bind_run_calls parse_no_adapt runGenerators_no_adapt afterAdapter_no_adapt
        split: sum.splits)

lemma generate_with_adapter:
  assumes "selectedAdapter this = Some ad"
    and "parse this env (opt_schema options) = (tp, Inr schema)"
    and "runGenerators schema options (selectedGenerators this)
           \<lparr> files = [], dependencies = [], metadata = None \<rparr> = (tg, Inr code)"
  shows "generate this env options =
           (case ap_adapt ad code options of
              Inl e \<Rightarrow> (tp @ tg @ [AdapterCalled (ap_name ad) code], Inl e)
            | Inr adapted \<Rightarrow>
                (tp @ tg @ AdapterCalled (ap_name ad) code
                   # fst (afterAdapter this env schema options adapted),
                 snd (afterAdapter this env schema options adapted)))"
  unfolding generate_def bind_run_Inr [OF assms(2)] fst_conv snd_conv
    bind_run_Inr [OF assms(3)] applyAdapter_Some [OF assms(1)]
  by (cases "ap_adapt ad code options") (simp_all add: bind_run_def split: prod.splits)

lemma generate_without_adapter:
  assumes "selectedAdapter this = None"
    and "parse this env (opt_schema options) = (tp, Inr schema)"
    and "runGenerators schema options (selectedGenerators this)
           \<lparr> files = [], dependencies = [], metadata = None \<rparr> = (tg, Inr code)"
  shows "generate this env options =
           (tp @ tg @ fst (afterAdapter this env schema options code),
            snd (afterAdapter this env schema options code))"
  unfolding generate_def bind_run_Inr [OF assms(2)] fst_conv snd_conv
    bind_run_Inr [OF assms(3)] applyAdapter_None [OF assms(1)]
  by (simp add: bind_run_def split: prod.splits)

lemma generate_adapt_once:
  assumes "selectedAdapter this = Some ad"
    and "parse this env (opt_schema options) = (tp, Inr schema)"
    and "runGenerators schema options (selectedGenerators this)
           \<lparr> files = [], dependencies = [], metadata = None \<rparr> = (tg, Inr code)"
  shows "filter isAdapterCall (fst (generate this env options)) = [AdapterCalled (ap_name ad) code]"
proof -
  have tp: "filter isAdapterCall tp = []"
    using parse_no_adapt [of this env "opt_schema options"] assms(2) by simp
  have tg: "filter isAdapterCall tg = []"
    using runGenerators_no_adapt [of schema options "selectedGenerators this"
        "\<lparr> files = [], dependencies = [], metadata = None \<rparr>"] assms(3) by simp
  show ?thesis
    unfolding generate_with_adapter [OF assms]
    by (simp add: tp tg afterAdapter_no_adapt split: sum.splits)
qed

lemma generate_no_adapt:
  assumes "selectedAdapter this = None"
  shows "filter isAdapterCall (fst (generate this env options)) = []"
  unfolding generate_def
  by (simp add: bind_run_calls parse_no_adapt runGenerators_no_adapt afterAdapter_no_adapt
        applyAdapter_None [OF assms] split: sum.splits)

lemma mock_parse:
  "selectedParser this = Some mockParser \<Longrightarrow>
     parse this emptyEnv (opt_schema testOptions)
       = ([InputRead ''test'', ParserCalled ''mock-parser'' ''test''], Inr mockSchema)"
  by (simp add: parse_def bind_run_def readInput_def emptyEnv_def testOptions_def mockParser_def)

lemma mock_generators:
  "runGenerators mockSchema testOptions [mockGenerator]
     \<lparr> files = [], dependencies = [], metadata = None \<rparr>
     = ([GeneratorCalled ''mock-generator''], Inr expressCode)"
  by (simp add: mockGenerator_def expressCode_def plainCode_def plainFile_def
        plainDependency_def mergeGeneratedCode_def mergeDependencies_def
        mergeDependencies_step_def)

lemma after_adapter_example:
  "afterAdapter adapterOrchestrator emptyEnv mockSchema testOptions
     (plainCode [plainFile ''server.ts'' ''// server''] [])
   = ([], Inr (plainCode [plainFile ''server.ts'' ''// server'']
                 [plainDependency ''express'' ''^4.18.0'' None]))"
  by code_simp

section \<open>The adapter step\<close>

text \<open>
  Claim C6. The adapter step: when an adapter is selected, \<open>adapt\<close> is called once, on
  the accumulator it is given, and the step's result is whatever \<open>adapt\<close> returns; when
  none is selected the step returns the accumulator unchanged and calls nothing. In a
  whole run of \<open>generate\<close>, \<open>adapt\<close> is never called more than once. When the parser and
  every generator have returned, with \<open>code\<close> the merged output of all generators: with
  an adapter selected the run calls \<open>adapt\<close> exactly once, on \<open>code\<close>, and the steps that
  follow (auth, database, deploy, dependency collection, writing) run on the adapter's
  return value alone, or the run ends with the adapter's error; with no adapter selected
  the run never calls \<open>adapt\<close> and the following steps run on \<open>code\<close>. The dependency
  collection of step 6 later adds the dependencies the plugins declare, whatever the
  accumulator holds.
\<close>

theorem adapter_replaces_accumulator:
  "(selectedAdapter this = Some ad \<longrightarrow>
      applyAdapter this options code
        = ([AdapterCalled (ap_name ad) code], ap_adapt ad code options)) \<and>
   (selectedAdapter this = None \<longrightarrow> applyAdapter this options code = ([], Inr code)) \<and>
   length (filter isAdapterCall (fst (generate this env options))) \<le> 1 \<and>
   (parse this env (opt_schema options) = (tp, Inr schema) \<and>
    runGenerators schema options (selectedGenerators this)
      \<lparr> files = [], dependencies = [], metadata = None \<rparr> = (tg, Inr code) \<longrightarrow>
      (selectedAdapter this = Some ad \<longrightarrow>
         filter isAdapterCall (fst (generate this env options))
           = [AdapterCalled (ap_name ad) code] \<and>
         (\<forall>adapted. ap_adapt ad code options = Inr adapted \<longrightarrow>
            generate this env options =
              (tp @ tg @ AdapterCalled (ap_name ad) code
                 # fst (afterAdapter this env schema options adapted),
               snd (afterAdapter this env schema options adapted))) \<and>
         (\<forall>e. ap_adapt ad code options = Inl e \<longrightarrow>
            generate this env options = (tp @ tg @ [AdapterCalled (ap_name ad) code], Inl e))) \<and>
      (selectedAdapter this = None \<longrightarrow>
         filter isAdapterCall (fst (generate this env options)) = [] \<and>
         generate this env options =
           (tp @ tg @ fst (afterAdapter this env schema options code),
            snd (afterAdapter this env schema options code))))"
proof -
  have step: "(selectedAdapter this = Some ad \<longrightarrow>
      applyAdapter this options code
        = ([AdapterCalled (ap_name ad) code], ap_adapt ad code options)) \<and>
   (selectedAdapter this = None \<longrightarrow> applyAdapter this options code = ([], Inr code))"
    using applyAdapter_Some applyAdapter_None by blast
  have run: "selectedAdapter this = Some ad \<longrightarrow>
         filter isAdapterCall (fst (generate this env options))
           = [AdapterCalled (ap_name ad) code] \<and>
         (\<forall>adapted. ap_adapt ad code options = Inr adapted \<longrightarrow>
            generate this env options =
              (tp @ tg @ AdapterCalled (ap_name ad) code
                 # fst (afterAdapter this env schema options adapted),
               snd (afterAdapter this env schema options adapted))) \<and>
         (\<forall>e. ap_adapt ad code options = Inl e \<longrightarrow>
            generate this env options = (tp @ tg @ [AdapterCalled (ap_name ad) code], Inl e))"
    if "parse this env (opt_schema options) = (tp, Inr schema)"
      "runGenerators schema options (selectedGenerators this)
        \<lparr> files = [], dependencies = [], metadata = None \<rparr> = (tg, Inr code)"
    using generate_adapt_once [OF _ that, of ad] generate_with_adapter [OF _ that, of ad]
    by auto
  have none: "selectedAdapter this = None \<longrightarrow>
         filter isAdapterCall (fst (generate this env options)) = [] \<and>
         generate this env options =
           (tp @ tg @ fst (afterAdapter this env schema options code),
            snd (afterAdapter this env schema options code))"
    if "parse this env (opt_schema options) = (tp, Inr schema)"
      "runGenerators schema options (selectedGenerators this)
        \<lparr> files = [], dependencies = [], metadata = None \<rparr> = (tg, Inr code)"
    using generate_no_adapt [of this env options] generate_without_adapter [OF _ that]
    by blast
  from step generate_adapt_at_most_once [of this env options] run none
  show ?thesis by blast
qed

theorem adapter_replaces_accumulator_witness:
  "selectedAdapter adapterOrchestrator = Some mockAdapter \<and>
   parse adapterOrchestrator emptyEnv (opt_schema testOptions)
     = ([InputRead ''test'', ParserCalled ''mock-parser'' ''test''], Inr mockSchema) \<and>
   runGenerators mockSchema testOptions (selectedGenerators adapterOrchestrator)
     \<lparr> files = [], dependencies = [], metadata = None \<rparr>
     = ([GeneratorCalled ''mock-generator''], Inr expressCode) \<and>
   ap_adapt mockAdapter expressCode testOptions
     = Inr (plainCode [plainFile ''server.ts'' ''// server''] []) \<and>
   filter isAdapterCall (fst (generate adapterOrchestrator emptyEnv testOptions))
     = [AdapterCalled ''mock-adapter'' expressCode] \<and>
   snd (generate adapterOrchestrator emptyEnv testOptions)
     = Inr (plainCode [plainFile ''server.ts'' ''// server'']
              [plainDependency ''express'' ''^4.18.0'' None]) \<and>
   selectedAdapter (generator mockGenerator (parser mockParser createGenerator)) = None \<and>
   filter isAdapterCall
     (fst (generate (generator mockGenerator (parser mockParser createGenerator)) emptyEnv testOptions))
     = []"
proof -
  let ?plain = "generator mockGenerator (parser mockParser createGenerator)"
  have sel: "selectedAdapter adapterOrchestrator = Some mockAdapter"
    "selectedParser adapterOrchestrator = Some mockParser"
    "selectedGenerators adapterOrchestrator = [mockGenerator]"
    "selectedAdapter ?plain = None" "selectedParser ?plain = Some mockParser"
    "selectedGenerators ?plain = [mockGenerator]"
    by (simp_all add: adapterOrchestrator_def adapter_def generator_def parser_def
          createGenerator_def sortByPriority_def)
  have p: "parse adapterOrchestrator emptyEnv (opt_schema testOptions)
     = ([InputRead ''test'', ParserCalled ''mock-parser'' ''test''], Inr mockSchema)"
    by (rule mock_parse [OF sel(2)])
  have p': "parse ?plain emptyEnv (opt_schema testOptions)
     = ([InputRead ''test'', ParserCalled ''mock-parser'' ''test''], Inr mockSchema)"
    by (rule mock_parse [OF sel(5)])
  have g: "runGenerators mockSchema testOptions (selectedGenerators adapterOrchestrator)
     \<lparr> files = [], dependencies = [], metadata = None \<rparr>
     = ([GeneratorCalled ''mock-generator''], Inr expressCode)"
    unfolding sel(3) by (rule mock_generators)
  have g': "runGenerators mockSchema testOptions (selectedGenerators ?plain)
     \<lparr> files = [], dependencies = [], metadata = None \<rparr>
     = ([GeneratorCalled ''mock-generator''], Inr expressCode)"
    unfolding sel(6) by (rule mock_generators)
  have a: "ap_adapt mockAdapter expressCode testOptions
     = Inr (plainCode [plainFile ''server.ts'' ''// server''] [])"
    "ap_name mockAdapter = ''mock-adapter''"
    by (simp_all add: mockAdapter_def)
  note T = adapter_replaces_accumulator [where this = adapterOrchestrator and ad = mockAdapter
      and env = emptyEnv and options = testOptions and schema = mockSchema and code = expressCode
      and tp = "[InputRead ''test'', ParserCalled ''mock-parser'' ''test'']"
      and tg = "[GeneratorCalled ''mock-generator'']"]
  from T p g sel(1) have "filter isAdapterCall (fst (generate adapterOrchestrator emptyEnv testOptions))
       = [AdapterCalled (ap_name mockAdapter) expressCode]"
    by blast
  then have once:
    "filter isAdapterCall (fst (generate adapterOrchestrator emptyEnv testOptions))
       = [AdapterCalled ''mock-adapter'' expressCode]"
    by (simp only: a(2))
  from T p g sel(1) a(1) have "generate adapterOrchestrator emptyEnv testOptions =
      ([InputRead ''test'', ParserCalled ''mock-parser'' ''test''] @ [GeneratorCalled ''mock-generator'']
         @ AdapterCalled (ap_name mockAdapter) expressCode
         # fst (afterAdapter adapterOrchestrator emptyEnv mockSchema testOptions
                  (plainCode [plainFile ''server.ts'' ''// server''] [])),
       snd (afterAdapter adapterOrchestrator emptyEnv mockSchema testOptions
              (plainCode [plainFile ''server.ts'' ''// server''] [])))"
    by blast
  then have "snd (generate adapterOrchestrator emptyEnv testOptions)
     = snd (afterAdapter adapterOrchestrator emptyEnv mockSchema testOptions
              (plainCode [plainFile ''server.ts'' ''// server''] []))"
    by simp
  then have res: "snd (generate adapterOrchestrator emptyEnv testOptions)
     = Inr (plainCode [plainFile ''server.ts'' ''// server'']
              [plainDependency ''express'' ''^4.18.0'' None])"
    by (simp add: after_adapter_example)
  note T' = adapter_replaces_accumulator [where this = ?plain and ad = mockAdapter
      and env = emptyEnv and options = testOptions and schema = mockSchema and code = expressCode
      and tp = "[InputRead ''test'', ParserCalled ''mock-parser'' ''test'']"
      and tg = "[GeneratorCalled ''mock-generator'']"]
  from T' p' g' sel(4) have never:
    "filter isAdapterCall (fst (generate ?plain emptyEnv testOptions)) = []"
    by blast
  from sel(1,4) p g a(1) once res never show ?thesis by blast
qed

section \<open>Priority order and the default merge\<close>

lemma sort_two:
  "gp_priority high = Some 10 \<Longrightarrow> gp_priority low = Some 5 \<Longrightarrow>
     sortByPriority gp_priority [high, low] = [high, low] \<and>
     sortByPriority gp_priority [low, high] = [high, low]"
  by (simp add: sortByPriority_def priorityOr0_def)

lemma two_generators_selected:
  assumes "gp_priority high = Some 10" "gp_priority low = Some 5"
    and "(g1 = high \<and> g2 = low) \<or> (g1 = low \<and> g2 = high)"
  shows "selectedGenerators (generator g2 (generator g1 (parser p createGenerator))) = [high, low]"
proof -
  have one: "selectedGenerators (generator g1 (parser p createGenerator)) = [g1]"
    by (simp add: generator_def parser_def createGenerator_def sortByPriority_def)
  have "selectedGenerators (generator g2 (generator g1 (parser p createGenerator)))
      = sortByPriority gp_priority [g1, g2]"
    unfolding generator_def [of g2] by (simp add: one)
  also have "\<dots> = [high, low]"
    using assms(3) sort_two [OF assms(1,2)] by blast
  finally show ?thesis .
qed

lemma builder_others:
  "selectedAdapter (generator g2 (generator g1 (parser p createGenerator))) = None"
  "selectedAuth (generator g2 (generator g1 (parser p createGenerator))) = []"
  "selectedDatabase (generator g2 (generator g1 (parser p createGenerator))) = None"
  "selectedDeploy (generator g2 (generator g1 (parser p createGenerator))) = []"
  by (simp_all add: generator_def parser_def createGenerator_def)

lemma run_two_generators:
  assumes "gp_generate high schema options = Inr chigh"
    and "gp_generate low schema options = Inr clow"
    and "filter (\<lambda>f. path f = p) (files clow) = [fl]"
  shows "\<exists>r. runGenerators schema options [high, low]
                \<lparr> files = [], dependencies = [], metadata = None \<rparr>
              = ([GeneratorCalled (gp_name high), GeneratorCalled (gp_name low)], Inr r) \<and>
             filter (\<lambda>f. path f = p) (files r) = [fl]"
proof -
  let ?e = "\<lparr> files = [], dependencies = [], metadata = None \<rparr>"
  obtain r1 where r1: "mergeGeneratedCode ?e chigh None = Inr r1"
    using merge_LastWins_files [of ?e chigh] by blast
  obtain r2 where r2: "mergeGeneratedCode r1 clow None = Inr r2"
    and f2: "\<And>q. filter (\<lambda>f. path f = q) (files r2) =
            (if filter (\<lambda>f. path f = q) (files r1 @ files clow) = [] then []
             else [last (filter (\<lambda>f. path f = q) (files r1 @ files clow))])"
    using merge_LastWins_files [of r1 clow] by blast
  have "filter (\<lambda>f. path f = p) (files r2) = [fl]"
    unfolding f2 by (simp add: assms(3))
  moreover have "runGenerators schema options [high, low] ?e
      = ([GeneratorCalled (gp_name high), GeneratorCalled (gp_name low)], Inr r2)"
    by (simp add: assms(1,2) r1 r2)
  ultimately show ?thesis by blast
qed

lemma afterAdapter_plain:
  assumes "selectedAuth this = []" "selectedDatabase this = None" "selectedDeploy this = []"
    and "opt_write options = Some False \<or> opt_dryRun options = Some True
         \<or> (\<forall>c. writeGeneratedCode env c (opt_output options) = Inr ())"
  shows "\<exists>t. afterAdapter this env schema options code
           = (t, Inr (code\<lparr> dependencies := collectDependencies this (dependencies code) \<rparr>))"
  using assms(4)
  by (auto simp: afterAdapter_def assms(1,2,3) runDatabase_def bind_run_def finishGenerate_def
        Let_def)

text \<open>
  Claim C1, as amended. An orchestrator is built from a parser and exactly two
  generators, registered in either order: one with priority 10 that emits a file at
  \<open>common.ts\<close> with content \<open>high\<close>, one with priority 5 that emits a file at
  \<open>common.ts\<close> with content \<open>low\<close> (each with any other files). The generators are
  selected in the order priority 10, then priority 5, and when the parser and both
  generators return (and writing is off or succeeds), \<open>generate()\<close> under the default
  \<open>last-wins\<close> merge returns an output whose only file at \<open>common.ts\<close> is the one of the
  priority-5 generator, with content \<open>low\<close>: the higher priority runs first, and the
  generator that runs later wins at a shared path.
\<close>

theorem priority_sorted_last_wins:
  assumes "gp_priority high = Some 10" "gp_priority low = Some 5"
    and "(g1 = high \<and> g2 = low) \<or> (g1 = low \<and> g2 = high)"
    and "this = generator g2 (generator g1 (parser p createGenerator))"
    and "parse this env (opt_schema options) = (tp, Inr schema)"
    and "gp_generate high schema options = Inr chigh"
    and "gp_generate low schema options = Inr clow"
    and "filter (\<lambda>f. path f = ''common.ts'') (files chigh) = [fh]" "content fh = ''high''"
    and "filter (\<lambda>f. path f = ''common.ts'') (files clow) = [fl]" "content fl = ''low''"
    and "opt_write options = Some False \<or> opt_dryRun options = Some True
         \<or> (\<forall>c. writeGeneratedCode env c (opt_output options) = Inr ())"
  shows "selectedGenerators this = [high, low] \<and>
         (\<exists>t r. generate this env options = (t, Inr r) \<and>
            filter (\<lambda>f. path f = ''common.ts'') (files r) = [fl] \<and>
            map content (filter (\<lambda>f. path f = ''common.ts'') (files r)) = [''low''])"
proof -
  have sel: "selectedGenerators this = [high, low]"
    unfolding assms(4) by (rule two_generators_selected [OF assms(1,2,3)])
  have oth: "selectedAdapter this = None" "selectedAuth this = []"
    "selectedDatabase this = None" "selectedDeploy this = []"
    unfolding assms(4) by (rule builder_others)+
  obtain r where run: "runGenerators schema options (selectedGenerators this)
                \<lparr> files = [], dependencies = [], metadata = None \<rparr>
              = ([GeneratorCalled (gp_name high), GeneratorCalled (gp_name low)], Inr r)"
    and fr: "filter (\<lambda>f. path f = ''common.ts'') (files r) = [fl]"
    unfolding sel using run_two_generators [OF assms(6,7,10)] by blast
  obtain t where fin: "afterAdapter this env schema options r
           = (t, Inr (r\<lparr> dependencies := collectDependencies this (dependencies r) \<rparr>))"
    using afterAdapter_plain [OF oth(2,3,4) assms(12)] by blast
  have "generate this env options =
      (tp @ [GeneratorCalled (gp_name high), GeneratorCalled (gp_name low)] @ t,
       Inr (r\<lparr> dependencies := collectDependencies this (dependencies r) \<rparr>))"
    using generate_without_adapter [OF oth(1) assms(5) run] fin by simp
  moreover have "filter (\<lambda>f. path f = ''common.ts'')
      (files (r\<lparr> dependencies := collectDependencies this (dependencies r) \<rparr>)) = [fl]"
    using fr by simp
  ultimately show ?thesis using sel assms(11) by auto
qed

theorem priority_sorted_last_wins_witness:
  "gp_priority highGenerator = Some 10 \<and> gp_priority lowGenerator = Some 5 \<and>
   priorityOrchestrator = generator lowGenerator (generator highGenerator (parser mockParser createGenerator)) \<and>
   parse priorityOrchestrator emptyEnv (opt_schema testOptions)
     = ([InputRead ''test'', ParserCalled ''mock-parser'' ''test''], Inr mockSchema) \<and>
   gp_generate highGenerator mockSchema testOptions
     = Inr (plainCode [plainFile ''high-only.ts'' ''h'', plainFile ''common.ts'' ''high''] []) \<and>
   gp_generate lowGenerator mockSchema testOptions
     = Inr (plainCode [plainFile ''low-only.ts'' ''l'', plainFile ''common.ts'' ''low''] []) \<and>
   opt_write testOptions = Some False \<and>
   selectedGenerators priorityOrchestrator = [highGenerator, lowGenerator] \<and>
   (\<exists>t r. generate priorityOrchestrator emptyEnv testOptions = (t, Inr r) \<and>
      filter (\<lambda>f. path f = ''common.ts'') (files r) = [plainFile ''common.ts'' ''low''] \<and>
      map content (filter (\<lambda>f. path f = ''common.ts'') (files r)) = [''low''])"
proof -
  let ?chigh = "plainCode [plainFile ''high-only.ts'' ''h'', plainFile ''common.ts'' ''high''] []"
  let ?clow = "plainCode [plainFile ''low-only.ts'' ''l'', plainFile ''common.ts'' ''low''] []"
  have h1: "gp_priority highGenerator = Some 10" by (simp add: highGenerator_def)
  have h2: "gp_priority lowGenerator = Some 5" by (simp add: lowGenerator_def)
  have h3: "(highGenerator = highGenerator \<and> lowGenerator = lowGenerator) \<or>
            (highGenerator = lowGenerator \<and> lowGenerator = highGenerator)" by simp
  have h4: "priorityOrchestrator
      = generator lowGenerator (generator highGenerator (parser mockParser createGenerator))"
    by (rule priorityOrchestrator_def)
  have sp: "selectedParser priorityOrchestrator = Some mockParser"
    by (simp add: priorityOrchestrator_def generator_def parser_def createGenerator_def)
  have h5: "parse priorityOrchestrator emptyEnv (opt_schema testOptions)
     = ([InputRead ''test'', ParserCalled ''mock-parser'' ''test''], Inr mockSchema)"
    by (rule mock_parse [OF sp])
  have h6: "gp_generate highGenerator mockSchema testOptions = Inr ?chigh"
    by (simp add: highGenerator_def)
  have h7: "gp_generate lowGenerator mockSchema testOptions = Inr ?clow"
    by (simp add: lowGenerator_def)
  have h8: "filter (\<lambda>f. path f = ''common.ts'') (files ?chigh) = [plainFile ''common.ts'' ''high'']"
    and h9: "content (plainFile ''common.ts'' ''high'') = ''high''"
    and h10: "filter (\<lambda>f. path f = ''common.ts'') (files ?clow) = [plainFile ''common.ts'' ''low'']"
    and h11: "content (plainFile ''common.ts'' ''low'') = ''low''"
    by (simp_all add: plainCode_def plainFile_def)
  have w: "opt_write testOptions = Some False" by (simp add: testOptions_def)
  then have h12: "opt_write testOptions = Some False \<or> opt_dryRun testOptions = Some True
         \<or> (\<forall>c. writeGeneratedCode emptyEnv c (opt_output testOptions) = Inr ())"
    by simp
  from priority_sorted_last_wins [OF h1 h2 h3 h4 h5 h6 h7 h8 h9 h10 h11 h12]
    h1 h2 h4 h5 h6 h7 w
  show ?thesis by blast
qed

text \<open>
  As stated the claim fails: in the scenario of the spec, with the two generators
  registered in either order, the file at \<open>common.ts\<close> has content \<open>low\<close>, and no file
  of the output has content \<open>high\<close> at that path.
\<close>

theorem priority_sorted_last_wins_counterexample:
  "snd (generate priorityOrchestrator emptyEnv testOptions)
     = Inr (plainCode [plainFile ''high-only.ts'' ''h'', plainFile ''common.ts'' ''low'',
                       plainFile ''low-only.ts'' ''l''] []) \<and>
   snd (generate priorityOrchestratorReversed emptyEnv testOptions)
     = Inr (plainCode [plainFile ''high-only.ts'' ''h'', plainFile ''common.ts'' ''low'',
                       plainFile ''low-only.ts'' ''l''] []) \<and>
   plainFile ''common.ts'' ''high''
     \<notin> set (files (plainCode [plainFile ''high-only.ts'' ''h'', plainFile ''common.ts'' ''low'',
                                 plainFile ''low-only.ts'' ''l''] []))"
  by code_simp

end
